theory Spec2Isabelle
  imports Complex_Main "HOL-Library.Sublist"
begin

section \<open>JavaScript string primitives used by channel.ts\<close>

text \<open>
  A text is a \<open>string\<close> whose characters stand for the code units below 256 (Latin-1).
  The primitives below follow ECMAScript on that range.
\<close>

definition js_space :: "char \<Rightarrow> bool" where
  \<comment> \<open>the class \<open>\s\<close>, also what \<open>trim\<close> strips: TAB, LF, VT, FF, CR, SP, NBSP\<close>
  "js_space c = (c \<in> set [CHR 0x09, CHR 0x0A, CHR 0x0B, CHR 0x0C, CHR 0x0D, CHR 0x20, CHR 0xA0])"

definition trim :: "string \<Rightarrow> string" where
  \<comment> \<open>\<open>String.prototype.trim\<close>\<close>
  "trim s = rev (dropWhile js_space (rev (dropWhile js_space s)))"

function split_ws :: "string \<Rightarrow> string list" where
  \<comment> \<open>\<open>s.split(/\s+/)\<close>: the pieces between maximal whitespace runs; a run at either end
      leaves an empty piece there, and the empty text gives one empty piece\<close>
  "split_ws s =
     (let w = takeWhile (\<lambda>c. \<not> js_space c) s;
          r = dropWhile (\<lambda>c. \<not> js_space c) s
      in if r = [] then [w] else w # split_ws (dropWhile js_space r))"
  by pat_completeness auto
termination
proof (relation "measure length")
  show "wf (measure length)" by simp
next
  fix s :: string and w r
  assume r: "r = dropWhile (\<lambda>c. \<not> js_space c) s" and ne: "r \<noteq> []"
  from ne obtain a l where al: "r = a # l"
    by (cases r) auto
  have "js_space (hd r)"
    using ne hd_dropWhile [of "\<lambda>c. \<not> js_space c" s] r by auto
  then have "dropWhile js_space r = dropWhile js_space l"
    using al by simp
  moreover have "length (dropWhile js_space l) \<le> length l"
    by (rule length_dropWhile_le)
  moreover have "length r \<le> length s"
    unfolding r by (rule length_dropWhile_le)
  ultimately show "(dropWhile js_space r, s) \<in> measure length"
    using al by simp
qed

declare split_ws.simps [simp del]

definition ascii_upper :: "char \<Rightarrow> bool" where
  "ascii_upper c = (c \<in> set ''ABCDEFGHIJKLMNOPQRSTUVWXYZ'')"

definition ascii_lower :: "char \<Rightarrow> bool" where
  "ascii_lower c = (c \<in> set ''abcdefghijklmnopqrstuvwxyz'')"

definition ascii_digit :: "char \<Rightarrow> bool" where
  "ascii_digit c = (c \<in> set ''0123456789'')"

definition toLowerCase_char :: "char \<Rightarrow> char" where
  \<comment> \<open>A-Z and the Latin-1 capitals 0xC0-0xDE (not the sign 0xD7) move up by 32\<close>
  "toLowerCase_char c =
     (let n = (of_char c :: nat)
      in if ascii_upper c \<or> (192 \<le> n \<and> n \<le> 222 \<and> n \<noteq> 215) then char_of (n + 32) else c)"

definition toLowerCase :: "string \<Rightarrow> string" where
  "toLowerCase s = map toLowerCase_char s"

fun js_includes :: "string \<Rightarrow> string \<Rightarrow> bool" where
  \<comment> \<open>\<open>s.includes(t)\<close>: t occurs in s as a contiguous run\<close>
  "js_includes [] t = (t = [])"
| "js_includes (c # s) t = (prefix t (c # s) \<or> js_includes s t)"

section \<open>Regular expressions, with the backtracking order of ECMAScript\<close>

text \<open>
  Only the constructs that the patterns of channel.ts use. Repetition is over a character
  class, as in every pattern there. Literals are compared as under the \<open>i\<close> flag, which
  both patterns with letters carry; without the \<open>u\<close> flag a character outside ASCII is
  never equated with an ASCII letter, so only a-z and A-Z are folded.
\<close>

datatype rx =
    Bol                         \<comment> \<open>\<open>^\<close>\<close>
  | Eol                         \<comment> \<open>\<open>$\<close>\<close>
  | WordBoundary                \<comment> \<open>\<open>\b\<close>\<close>
  | Class "char \<Rightarrow> bool"       \<comment> \<open>one character of a class\<close>
  | Lit string                  \<comment> \<open>literal characters\<close>
  | Opt rx                      \<comment> \<open>greedy \<open>?\<close>\<close>
  | StarC "char \<Rightarrow> bool"       \<comment> \<open>greedy \<open>*\<close> over a class\<close>
  | PlusC "char \<Rightarrow> bool"       \<comment> \<open>greedy \<open>+\<close> over a class\<close>
  | Seq "rx list"
  | Alt "rx list"               \<comment> \<open>alternatives, tried left to right\<close>

definition canonicalize :: "char \<Rightarrow> char" where
  "canonicalize c = (if ascii_lower c then char_of ((of_char c :: nat) - 32) else c)"

definition word_char :: "char \<Rightarrow> bool" where
  \<comment> \<open>the class \<open>\w\<close>\<close>
  "word_char c = (ascii_lower c \<or> ascii_upper c \<or> ascii_digit c \<or> c = CHR ''_'')"

definition at_word_boundary :: "string \<Rightarrow> nat \<Rightarrow> bool" where
  "at_word_boundary s i =
     ((0 < i \<and> word_char (s ! (i - 1))) \<noteq> (i < length s \<and> word_char (s ! i)))"

text \<open>
  \<open>ends r s i\<close> lists the positions where a match of \<open>r\<close> that starts at position \<open>i\<close>
  of \<open>s\<close> can end, in the order in which the backtracking matcher tries them: the head
  is the match that \<open>exec\<close> reports for this start.
\<close>

fun ends :: "rx \<Rightarrow> string \<Rightarrow> nat \<Rightarrow> nat list"
  and ends_seq :: "rx list \<Rightarrow> string \<Rightarrow> nat \<Rightarrow> nat list"
  and ends_alt :: "rx list \<Rightarrow> string \<Rightarrow> nat \<Rightarrow> nat list" where
  "ends Bol s i = (if i = 0 then [i] else [])"
| "ends Eol s i = (if i = length s then [i] else [])"
| "ends WordBoundary s i = (if at_word_boundary s i then [i] else [])"
| "ends (Class p) s i = (if i < length s \<and> p (s ! i) then [Suc i] else [])"
| "ends (Lit l) s i =
     (if map canonicalize (take (length l) (drop i s)) = map canonicalize l
      then [i + length l] else [])"
| "ends (Opt r) s i = ends r s i @ [i]"
| "ends (StarC p) s i = map (\<lambda>k. i + k) (rev [0..<Suc (length (takeWhile p (drop i s)))])"
| "ends (PlusC p) s i = map (\<lambda>k. i + k) (rev [1..<Suc (length (takeWhile p (drop i s)))])"
| "ends (Seq rs) s i = ends_seq rs s i"
| "ends (Alt rs) s i = ends_alt rs s i"
| "ends_seq [] s i = [i]"
| "ends_seq (r # rs) s i = concat (map (ends_seq rs s) (ends r s i))"
| "ends_alt [] s i = []"
| "ends_alt (r # rs) s i = ends r s i @ ends_alt rs s i"

definition rx_exec :: "rx \<Rightarrow> string \<Rightarrow> (nat \<times> nat) option" where
  \<comment> \<open>the leftmost start with a match, and the end of the match found first there\<close>
  "rx_exec r s =
     map_option (\<lambda>i. (i, hd (ends r s i)))
       (List.find (\<lambda>i. ends r s i \<noteq> []) [0..<Suc (length s)])"

definition rx_test :: "rx \<Rightarrow> string \<Rightarrow> bool" where
  \<comment> \<open>\<open>r.test(s)\<close>\<close>
  "rx_test r s = (rx_exec r s \<noteq> None)"

definition rx_remove_first :: "rx \<Rightarrow> string \<Rightarrow> string" where
  \<comment> \<open>\<open>s.replace(r, "")\<close> for a pattern without the \<open>g\<close> flag\<close>
  "rx_remove_first r s =
     (case rx_exec r s of None \<Rightarrow> s | Some (i, j) \<Rightarrow> take i s @ drop j s)"

section \<open>The patterns of the transcription handler\<close>

definition stopPattern :: rx where
  \<comment> \<open>\<open>/^stop\.?$/i\<close>\<close>
  "stopPattern = Seq [Bol, Lit ''stop'', Opt (Lit ''.''), Eol]"

definition separator :: "char \<Rightarrow> bool" where
  \<comment> \<open>the class \<open>[\s,.]\<close>, written \<open>[,.\s]\<close> in the second pattern\<close>
  "separator c = (js_space c \<or> c = CHR '','' \<or> c = CHR ''.'')"

definition wakePattern :: rx where
  \<comment> \<open>\<open>/(?:^|[\s,.])\s*(?:hey|hay|a|eh)\s+(?:mentra|menta|mentor|mencia|mantra|menorah)\b/i\<close>\<close>
  "wakePattern =
     Seq [Alt [Bol, Class separator],
          StarC js_space,
          Alt [Lit ''hey'', Lit ''hay'', Lit ''a'', Lit ''eh''],
          PlusC js_space,
          Alt [Lit ''mentra'', Lit ''menta'', Lit ''mentor'', Lit ''mencia'', Lit ''mantra'',
               Lit ''menorah''],
          WordBoundary]"

definition leadingSeparators :: rx where
  \<comment> \<open>\<open>/^[,.\s]+/\<close>\<close>
  "leadingSeparators = Seq [Bol, PlusC separator]"

definition greeting :: string where
  "greeting = ''Hey''"

definition stripWakeWord :: "string \<Rightarrow> string" where
  \<comment> \<open>\<open>raw.replace(wakePattern, "").replace(/^[,.\s]+/, "").trim() || "Hey"\<close>\<close>
  "stripWakeWord raw =
     (let t = trim (rx_remove_first leadingSeparators (rx_remove_first wakePattern raw))
      in if t = [] then greeting else t)"

section \<open>Speech-duration estimate and echo check\<close>

definition estimateTtsDurationMs :: "string \<Rightarrow> int" where
  \<comment> \<open>\<open>Math.max(2000, text.split(/\s+/).length * 130 + 1000)\<close>\<close>
  "estimateTtsDurationMs text = max 2000 (int (length (split_ws text)) * 130 + 1000)"

definition norm_str :: "string \<Rightarrow> string" where
  \<comment> \<open>\<open>s.toLowerCase().replace(/[^a-z0-9\s]/g, "").trim()\<close>\<close>
  "norm_str s = trim (filter (\<lambda>c. ascii_lower c \<or> ascii_digit c \<or> js_space c) (toLowerCase s))"

definition isEcho :: "string \<Rightarrow> string \<Rightarrow> bool" where
  \<comment> \<open>the closure \<open>isEcho\<close>, with the variable \<open>recentTtsText\<close> it reads as first argument.
      The quotient of the two counts is compared with 6/10 exactly: a quotient of two
      string lengths is apart from 3/5 by far more than the rounding of a double.\<close>
  "isEcho recentTtsText text =
     (if recentTtsText = [] then False
      else let ttsNorm = norm_str recentTtsText;
               textNorm = norm_str text
           in if js_includes ttsNorm textNorm \<or> js_includes textNorm ttsNorm then True
              else let ttsWords = set (split_ws ttsNorm);
                       textWords = split_ws textNorm
                   in if length textWords = 0 then False
                      else let overlap = length (filter (\<lambda>w. w \<in> ttsWords) textWords)
                           in real overlap / real (length textWords) > 6 / 10)"

section \<open>Collaborators, effects and state\<close>

text \<open>
  The plugin runtime and the device session are outside the repository. One run of a
  handler meets them through a script: for every call the code makes, what that call does
  this time (\<open>Inl e\<close>: it throws \<open>e\<close> or, where the source awaits the call, rejects with \<open>e\<close>;
  \<open>Inr v\<close>: it returns \<open>v\<close>). Where the source does not await a call, as for
  \<open>activity.record\<close>, a promise that is rejected later is a return like any other. Values that
  the code only passes on (route, store path, envelope, configuration) are not
  represented. The handler's observable actions are collected in order as a trace.

  \<open>stopAudio\<close> and the acknowledgment \<open>speak("Hmm")\<close> are calls whose result the source
  drops (no \<open>await\<close>), so they appear in the trace without an outcome. \<open>console.log\<close> lines
  are left out, \<open>console.error\<close> lines are trace entries, with the label of the source
  shortened to its words. A handler is run from its first line to its last without another
  handler of the session in between; every write to the listen state in the source is a
  plain assignment, so the state a handler leaves is the one returned here.
\<close>

type_synonym err = string

datatype collaborator =
    ResolveAgentRoute
  | ResolveStorePath
  | ResolveEnvelopeFormatOptions
  | FormatInboundEnvelope string                  \<comment> \<open>body\<close>
  | FinalizeInboundContext string "string option" \<comment> \<open>Body, MediaPath (when the context has one)\<close>
  | RecordInboundSession
  | RecordSessionMetaFromInbound
  | ActivityRecord
  | ResolveEffectiveMessagesConfig
  | ResolveHumanDelayConfig
  | DispatchReply
  | SaveMediaBuffer string                        \<comment> \<open>MIME type\<close>

datatype effect =
    StopAudio                      \<comment> \<open>\<open>session.audio.stopAudio()\<close>\<close>
  | Speak string nat bool          \<comment> \<open>\<open>session.audio.speak(text, {trackId, stopOtherAudio})\<close>\<close>
  | Call collaborator              \<comment> \<open>a call into the plugin runtime\<close>
  | LogError string err            \<comment> \<open>\<open>console.error(label, err)\<close>\<close>

datatype callback =
    Deliver "string option"        \<comment> \<open>\<open>deliver(payload)\<close>, with \<open>payload.text\<close>\<close>
  | OnError err                    \<comment> \<open>\<open>onError(err, info)\<close>\<close>

record runtime =
  resolveAgentRoute :: "err + unit"
  resolveStorePath :: "err + unit"
  resolveEnvelopeFormatOptions :: "err + unit"
  formatInboundEnvelope :: "err + unit"
  finalizeInboundContext :: "err + unit"
  recordInboundSession :: "err list \<times> (err + unit)"
    \<comment> \<open>the errors it hands to \<open>onRecordError\<close>, then how the call ends\<close>
  recordSessionMetaFromInbound :: "err + unit"
  activityRecord :: "err + unit"
  resolveEffectiveMessagesConfig :: "err + unit"
  resolveHumanDelayConfig :: "err + unit"
  dispatchReply :: "callback list \<times> (err + unit)"
    \<comment> \<open>the callbacks it makes, in order, then how the call ends\<close>
  saveMediaBuffer :: "err + string"
    \<comment> \<open>the path of the saved file\<close>

record audio =
  speakReply :: "err + unit"       \<comment> \<open>the awaited \<open>speak(reply, ...)\<close>\<close>
  speakApology :: "err + unit"     \<comment> \<open>the awaited \<open>speak\<close> of the catch block\<close>

record listen_state =
  listenWindowUntil :: int
  speakingUntil :: int
  recentTtsText :: string

definition initial_state :: listen_state where
  "initial_state = \<lparr>listenWindowUntil = 0, speakingUntil = 0, recentTtsText = []\<rparr>"

record clock =
  \<comment> \<open>what each \<open>Date.now()\<close> of the transcription handler returns\<close>
  nowSuppress :: int       \<comment> \<open>line 520\<close>
  nowWindow :: int         \<comment> \<open>line 533\<close>
  nowBeforeSpeak :: int    \<comment> \<open>line 568\<close>
  nowAfterSpeak :: int     \<comment> \<open>line 574\<close>

record transcriptionData =
  dataText :: string
  isFinal :: bool

record photoTaken =
  photoData :: "nat list"
  mimeType :: "string option"

section \<open>The inbound pipeline (channel.ts, processInboundMessage)\<close>

type_synonym 'a run = "effect list \<times> (err + 'a)"

definition call :: "collaborator \<Rightarrow> err + 'a \<Rightarrow> 'a run" where
  "call c out = ([Call c], out)"

definition andThen :: "'a run \<Rightarrow> ('a \<Rightarrow> 'b run) \<Rightarrow> 'b run" where
  \<comment> \<open>sequencing of two statements: an exception of the first skips the second\<close>
  "andThen m f =
     (case m of
        (es, Inl e) \<Rightarrow> (es, Inl e)
      | (es, Inr v) \<Rightarrow> (es @ fst (f v), snd (f v)))"

definition truthy :: "string option \<Rightarrow> bool" where
  \<comment> \<open>the truth value of a \<open>string | undefined\<close>, as in \<open>if (reply)\<close> and \<open>mediaPath ? ... : {}\<close>:
      defined and not the empty string\<close>
  "truthy v = (case v of None \<Rightarrow> False | Some r \<Rightarrow> r \<noteq> [])"

definition contextMedia :: "string option \<Rightarrow> string option" where
  \<comment> \<open>\<open>...(mediaPath ? { MediaPath: mediaPath, MediaType: mediaType } : {})\<close>: the context
      has the path only when the path is defined and not empty\<close>
  "contextMedia mediaPath = (if truthy mediaPath then mediaPath else None)"

definition newline :: string where
  "newline = [CHR 0x0A]"

definition deliver :: "string \<Rightarrow> string option \<Rightarrow> string" where
  \<comment> \<open>the \<open>deliver\<close> callback: the new value of \<open>collectedReply\<close>\<close>
  "deliver collectedReply payloadText =
     (case map_option trim payloadText of
        None \<Rightarrow> collectedReply
      | Some replyText \<Rightarrow>
          if replyText \<noteq> []
          then collectedReply @ (if collectedReply \<noteq> [] then newline else []) @ replyText
          else collectedReply)"

fun runCallbacks :: "callback list \<Rightarrow> string \<Rightarrow> effect list \<times> string" where
  "runCallbacks [] collectedReply = ([], collectedReply)"
| "runCallbacks (Deliver p # cs) collectedReply = runCallbacks cs (deliver collectedReply p)"
| "runCallbacks (OnError e # cs) collectedReply =
     (LogError ''Reply dispatch error'' e # fst (runCallbacks cs collectedReply),
      snd (runCallbacks cs collectedReply))"

definition recordInboundSessionCall :: "runtime \<Rightarrow> unit run" where
  "recordInboundSessionCall rt =
     (Call RecordInboundSession # map (LogError ''Error recording session'') (fst (recordInboundSession rt)),
      snd (recordInboundSession rt))"

definition dispatchCall :: "runtime \<Rightarrow> string run" where
  "dispatchCall rt =
     (let cbs = runCallbacks (fst (dispatchReply rt)) []
      in (Call DispatchReply # fst cbs,
          case snd (dispatchReply rt) of Inl e \<Rightarrow> Inl e | Inr _ \<Rightarrow> Inr (snd cbs)))"

definition processInboundMessage :: "runtime \<Rightarrow> string \<Rightarrow> string option \<Rightarrow> string option run" where
  "processInboundMessage rt text mediaPath =
     andThen (call ResolveAgentRoute (resolveAgentRoute rt)) (\<lambda>_.
     andThen (call ResolveStorePath (resolveStorePath rt)) (\<lambda>_.
     andThen (call ResolveEnvelopeFormatOptions (resolveEnvelopeFormatOptions rt)) (\<lambda>_.
     andThen (call (FormatInboundEnvelope text) (formatInboundEnvelope rt)) (\<lambda>_.
     andThen (call (FinalizeInboundContext text (contextMedia mediaPath))
                (finalizeInboundContext rt)) (\<lambda>_.
     andThen (recordInboundSessionCall rt) (\<lambda>_.
     andThen (call RecordSessionMetaFromInbound (recordSessionMetaFromInbound rt)) (\<lambda>_.
     andThen (call ActivityRecord (activityRecord rt)) (\<lambda>_.
     andThen (call ResolveEffectiveMessagesConfig (resolveEffectiveMessagesConfig rt)) (\<lambda>_.
     andThen (call ResolveHumanDelayConfig (resolveHumanDelayConfig rt)) (\<lambda>_.
     andThen (dispatchCall rt) (\<lambda>collectedReply.
       ([], Inr (if collectedReply \<noteq> [] then Some collectedReply else None)))))))))))))"

section \<open>The transcription handler (channel.ts, onSession, lines 502-588)\<close>

definition LISTEN_WINDOW_MS :: int where
  "LISTEN_WINDOW_MS = 30000"

definition acknowledgment :: effect where
  "acknowledgment = Speak ''Hmm'' 1 False"

definition transcriptionApology :: string where
  "transcriptionApology = ''Sorry, I encountered an error processing your request.''"

definition photoApology :: string where
  "photoApology = ''Sorry, I couldn't analyze that photo.''"

datatype verdict =
    Ignored              \<comment> \<open>line 505: not final, or blank\<close>
  | StopCommand          \<comment> \<open>lines 510-517\<close>
  | SuppressedSpeaking   \<comment> \<open>lines 520-523\<close>
  | SuppressedEcho       \<comment> \<open>lines 524-528\<close>
  | NoWakeWord           \<comment> \<open>lines 536-539\<close>
  | Accepted string      \<comment> \<open>line 542: the command text\<close>

record handled =
  verdict :: verdict
  effects :: "effect list"
  state :: listen_state

definition catchSpeak :: "string \<Rightarrow> string \<Rightarrow> string \<Rightarrow> audio \<Rightarrow> err \<Rightarrow> effect list" where
  \<comment> \<open>a catch block: log, speak the apology, log again if that fails\<close>
  "catchSpeak label apology label2 au e =
     LogError label e # Speak apology 2 True #
       (case speakApology au of Inl e2 \<Rightarrow> [LogError label2 e2] | Inr _ \<Rightarrow> [])"

definition tryTranscription ::
    "runtime \<Rightarrow> audio \<Rightarrow> clock \<Rightarrow> string \<Rightarrow> listen_state \<Rightarrow> effect list \<times> (err + unit) \<times> listen_state" where
  \<comment> \<open>the body of the try block, lines 548-575\<close>
  "tryTranscription rt au clk text st =
     (let p = processInboundMessage rt text None
      in case snd p of
           Inl e \<Rightarrow> (acknowledgment # fst p, Inl e, st)
         | Inr reply \<Rightarrow>
             (if truthy reply
              then let r = the reply;
                       st1 = st\<lparr>recentTtsText := r,
                                speakingUntil := nowBeforeSpeak clk + estimateTtsDurationMs r\<rparr>;
                       es = acknowledgment # fst p @ [Speak r 2 True]
                   in case speakReply au of
                        Inl e \<Rightarrow> (es, Inl e, st1)
                      | Inr _ \<Rightarrow>
                          (es, Inr (),
                           st1\<lparr>listenWindowUntil := nowAfterSpeak clk + LISTEN_WINDOW_MS\<rparr>)
              else (acknowledgment # fst p, Inr (), st)))"

definition respond ::
    "runtime \<Rightarrow> audio \<Rightarrow> clock \<Rightarrow> string \<Rightarrow> listen_state \<Rightarrow> effect list \<times> listen_state" where
  \<comment> \<open>try and catch, lines 547-586\<close>
  "respond rt au clk text st =
     (case tryTranscription rt au clk text st of
        (es, Inr _, st') \<Rightarrow> (es, st')
      | (es, Inl e, st') \<Rightarrow>
          (es @ catchSpeak ''Error processing transcription'' transcriptionApology
                  ''Error sending error TTS'' au e, st'))"

definition onTranscription ::
    "runtime \<Rightarrow> audio \<Rightarrow> clock \<Rightarrow> transcriptionData \<Rightarrow> listen_state \<Rightarrow> handled" where
  "onTranscription rt au clk data st =
     (if \<not> isFinal data \<or> trim (dataText data) = []
      then \<lparr>verdict = Ignored, effects = [], state = st\<rparr>
      else let raw = trim (dataText data)
      in if rx_test stopPattern raw
         then \<lparr>verdict = StopCommand, effects = [StopAudio],
               state = st\<lparr>listenWindowUntil := 0, speakingUntil := 0, recentTtsText := []\<rparr>\<rparr>
         else if nowSuppress clk < speakingUntil st
         then \<lparr>verdict = SuppressedSpeaking, effects = [], state = st\<rparr>
         else if isEcho (recentTtsText st) raw
         then \<lparr>verdict = SuppressedEcho, effects = [], state = st\<lparr>recentTtsText := []\<rparr>\<rparr>
         else let inListenWindow = nowWindow clk < listenWindowUntil st;
                  hasWakeWord = rx_test wakePattern raw
         in if \<not> hasWakeWord \<and> \<not> inListenWindow
            then \<lparr>verdict = NoWakeWord, effects = [], state = st\<rparr>
            else let text = (if hasWakeWord then stripWakeWord raw else raw);
                     r = respond rt au clk text st
                 in \<lparr>verdict = Accepted text, effects = fst r, state = snd r\<rparr>)"

section \<open>The photo handler (channel.ts, onSession, lines 591-633)\<close>

definition photoText :: string where
  "photoText = ''[Photo from smart glasses]''"

definition tryPhoto :: "runtime \<Rightarrow> audio \<Rightarrow> photoTaken \<Rightarrow> effect list \<times> (err + unit)" where
  \<comment> \<open>the body of the try block, lines 597-621\<close>
  "tryPhoto rt au data =
     (let mime = (case mimeType data of None \<Rightarrow> ''image/jpeg''
                  | Some m \<Rightarrow> if m \<noteq> [] then m else ''image/jpeg'')
      in case saveMediaBuffer rt of
           Inl e \<Rightarrow> ([Call (SaveMediaBuffer mime)], Inl e)
         | Inr path \<Rightarrow>
             (let p = processInboundMessage rt photoText (Some path);
                  es = Call (SaveMediaBuffer mime) # fst p
              in case snd p of
                   Inl e \<Rightarrow> (es, Inl e)
                 | Inr reply \<Rightarrow>
                     (if truthy reply then (es @ [Speak (the reply) 2 True], speakReply au)
                      else (es, Inr ()))))"

definition onPhotoTaken ::
    "runtime \<Rightarrow> audio \<Rightarrow> photoTaken \<Rightarrow> listen_state \<Rightarrow> effect list \<times> listen_state" where
  "onPhotoTaken rt au data st =
     (case tryPhoto rt au data of
        (es, Inr _) \<Rightarrow> (es, st)
      | (es, Inl e) \<Rightarrow>
          (es @ catchSpeak ''Error processing photo'' photoApology
                  ''Error sending photo error TTS'' au e, st))"

section \<open>Notions the properties are stated with\<close>

function words :: "string \<Rightarrow> string list" where
  \<comment> \<open>the words of a text: its maximal runs of characters that are not whitespace\<close>
  "words s =
     (let t = dropWhile js_space s
      in if t = [] then []
         else takeWhile (\<lambda>c. \<not> js_space c) t # words (dropWhile (\<lambda>c. \<not> js_space c) t))"
  by pat_completeness auto
termination
proof (relation "measure length")
  show "wf (measure length)" by simp
next
  fix s :: string and t
  assume t: "t = dropWhile js_space s" and ne: "t \<noteq> []"
  from ne obtain a l where al: "t = a # l"
    by (cases t) auto
  have "\<not> js_space (hd t)"
    using ne hd_dropWhile [of js_space s] t by auto
  then have "dropWhile (\<lambda>c. \<not> js_space c) t = dropWhile (\<lambda>c. \<not> js_space c) l"
    using al by simp
  moreover have "length (dropWhile (\<lambda>c. \<not> js_space c) l) \<le> length l"
    by (rule length_dropWhile_le)
  moreover have "length t \<le> length s"
    unfolding t by (rule length_dropWhile_le)
  ultimately show "(dropWhile (\<lambda>c. \<not> js_space c) t, s) \<in> measure length"
    using al by simp
qed

declare words.simps [simp del]

definition wordCount :: "string \<Rightarrow> nat" where
  \<comment> \<open>the count the estimate uses, \<open>text.split(/\s+/).length\<close>\<close>
  "wordCount text = length (split_ws text)"

definition trimmed :: "string \<Rightarrow> bool" where
  \<comment> \<open>no whitespace at either end\<close>
  "trimmed s = (s = [] \<or> (\<not> js_space (hd s) \<and> \<not> js_space (last s)))"

fun joinLines :: "string list \<Rightarrow> string" where
  "joinLines [] = []"
| "joinLines [x] = x"
| "joinLines (x # y # ys) = x @ [CHR 0x0A] @ joinLines (y # ys)"

fun producedChunks :: "callback list \<Rightarrow> string list" where
  \<comment> \<open>the reply text of the deliveries, trimmed, without the ones that are blank\<close>
  "producedChunks [] = []"
| "producedChunks (Deliver (Some t) # cs) =
     (if trim t \<noteq> [] then trim t # producedChunks cs else producedChunks cs)"
| "producedChunks (Deliver None # cs) = producedChunks cs"
| "producedChunks (OnError e # cs) = producedChunks cs"

definition succeeds :: "err + 'a \<Rightarrow> bool" where
  "succeeds out = (case out of Inl _ \<Rightarrow> False | Inr _ \<Rightarrow> True)"

definition reachesDispatch :: "runtime \<Rightarrow> bool" where
  \<comment> \<open>every call of the pipeline before the dispatch returns\<close>
  "reachesDispatch rt =
     (succeeds (resolveAgentRoute rt) \<and> succeeds (resolveStorePath rt) \<and>
      succeeds (resolveEnvelopeFormatOptions rt) \<and> succeeds (formatInboundEnvelope rt) \<and>
      succeeds (finalizeInboundContext rt) \<and> succeeds (snd (recordInboundSession rt)) \<and>
      succeeds (recordSessionMetaFromInbound rt) \<and> succeeds (activityRecord rt) \<and>
      succeeds (resolveEffectiveMessagesConfig rt) \<and> succeeds (resolveHumanDelayConfig rt))"

definition claimedChunks :: "callback list \<Rightarrow> string list" where
  \<comment> \<open>the chunks as the specification words them: every delivered text that is not empty,
      as it was delivered\<close>
  "claimedChunks cbs =
     concat (map (\<lambda>cb. case cb of Deliver (Some t) \<Rightarrow> (if t \<noteq> [] then [t] else []) | _ \<Rightarrow> []) cbs)"

definition punctuationMark :: "char \<Rightarrow> bool" where
  "punctuationMark c = (c \<in> set ''.,!?;:'')"

definition claimedStop :: "string \<Rightarrow> bool" where
  \<comment> \<open>a stop utterance as the specification words it: \<open>stop\<close> in any letter case, with or
      without punctuation after it\<close>
  "claimedStop raw = (map canonicalize (rev (dropWhile punctuationMark (rev raw))) = ''STOP'')"

definition collapseWhitespace :: "string \<Rightarrow> string" where
  \<comment> \<open>every whitespace run becomes one space, none is left at the ends\<close>
  "collapseWhitespace s =
     (case words s of [] \<Rightarrow> [] | w # ws \<Rightarrow> w @ concat (map (\<lambda>v. CHR '' '' # v) ws))"

definition claimedNormalize :: "string \<Rightarrow> string" where
  \<comment> \<open>the normalization as the specification words it: lowercase, strip what is not
      alphanumeric, collapse whitespace\<close>
  "claimedNormalize s =
     collapseWhitespace
       (filter (\<lambda>c. ascii_lower c \<or> ascii_digit c \<or> js_space c) (toLowerCase s))"

definition claimedEcho :: "string \<Rightarrow> string \<Rightarrow> bool" where
  \<comment> \<open>the rejection rule as the specification words it\<close>
  "claimedEcho tts text =
     (let a = claimedNormalize tts;
          b = claimedNormalize text
      in sublist b a \<or> sublist a b \<or>
         real (length (filter (\<lambda>w. w \<in> set (words a)) (words b))) / real (length (words b))
           > 6 / 10)"

definition claimedCommand :: "string \<Rightarrow> string" where
  \<comment> \<open>the extraction as the specification words it: the text without the match and without
      the punctuation and space that follow the match, or the greeting\<close>
  "claimedCommand raw =
     (case rx_exec wakePattern raw of
        None \<Rightarrow> raw
      | Some (i, j) \<Rightarrow>
          (let t = take i raw @ dropWhile separator (drop j raw)
           in if t = [] then greeting else t))"

section \<open>Example scripts\<close>

definition calmRuntime :: runtime where
  \<comment> \<open>every call returns; the agent answers "Four" in one delivery\<close>
  "calmRuntime =
     \<lparr>resolveAgentRoute = Inr (), resolveStorePath = Inr (),
      resolveEnvelopeFormatOptions = Inr (), formatInboundEnvelope = Inr (),
      finalizeInboundContext = Inr (), recordInboundSession = ([], Inr ()),
      recordSessionMetaFromInbound = Inr (), activityRecord = Inr (),
      resolveEffectiveMessagesConfig = Inr (), resolveHumanDelayConfig = Inr (),
      dispatchReply = ([Deliver (Some ''Four'')], Inr ()),
      saveMediaBuffer = Inr ''/media/photo.jpg''\<rparr>"

definition calmAudio :: audio where
  "calmAudio = \<lparr>speakReply = Inr (), speakApology = Inr ()\<rparr>"

definition clockAt :: "int \<Rightarrow> clock" where
  \<comment> \<open>a handler run during which the clock does not advance\<close>
  "clockAt t = \<lparr>nowSuppress = t, nowWindow = t, nowBeforeSpeak = t, nowAfterSpeak = t\<rparr>"

definition heard :: "string \<Rightarrow> transcriptionData" where
  \<comment> \<open>a final transcription\<close>
  "heard t = \<lparr>dataText = t, isFinal = True\<rparr>"

definition chattyRuntime :: runtime where
  \<comment> \<open>the agent answers in several deliveries, some of them without text or blank\<close>
  "chattyRuntime =
     calmRuntime\<lparr>dispatchReply :=
       ([Deliver (Some ''  Four ''), Deliver None, Deliver (Some ''   ''), OnError ''late block'',
         Deliver (Some ''is the answer.'')], Inr ())\<rparr>"

definition paddedRuntime :: runtime where
  \<comment> \<open>the agent answers with a blank delivery and a padded one among the deliveries\<close>
  "paddedRuntime =
     calmRuntime\<lparr>dispatchReply :=
       ([Deliver (Some ''Four''), Deliver (Some ''   ''), Deliver (Some '' five '')], Inr ())\<rparr>"

definition blankRuntime :: runtime where
  \<comment> \<open>the only delivery is three spaces\<close>
  "blankRuntime = calmRuntime\<lparr>dispatchReply := ([Deliver (Some ''   '')], Inr ())\<rparr>"

definition muteRuntime :: runtime where
  \<comment> \<open>the agent produces no text\<close>
  "muteRuntime = calmRuntime\<lparr>dispatchReply := ([Deliver None, Deliver (Some '' '')], Inr ())\<rparr>"

definition fullDiskRuntime :: runtime where
  \<comment> \<open>the write of the session metadata is rejected\<close>
  "fullDiskRuntime = calmRuntime\<lparr>recordSessionMetaFromInbound := Inl ''disk full''\<rparr>"

definition busyStoreRuntime :: runtime where
  \<comment> \<open>the recording of the inbound session reports an error to \<open>onRecordError\<close>\<close>
  "busyStoreRuntime = calmRuntime\<lparr>recordInboundSession := ([''store busy''], Inr ())\<rparr>"





definition snapshot :: photoTaken where
  "snapshot = \<lparr>photoData = [255, 216, 255], mimeType = None\<rparr>"

definition busyState :: listen_state where
  \<comment> \<open>a reply "Four" is being spoken until 9000, the listen window is open until 50000\<close>
  "busyState = \<lparr>listenWindowUntil = 50000, speakingUntil = 9000, recentTtsText = ''Four''\<rparr>"

section \<open>Facts about the string primitives\<close>

lemma trim_eq_self_iff: "trim s = s \<longleftrightarrow> trimmed s"
proof
  assume eq: "trim s = s"
  have l1: "length (trim s) \<le> length (dropWhile js_space s)"
    unfolding trim_def using length_dropWhile_le [of js_space "rev (dropWhile js_space s)"] by simp
  have l2: "length (dropWhile js_space s) \<le> length s"
    by (rule length_dropWhile_le)
  from eq l1 l2 have "length (dropWhile js_space s) = length s" by simp
  moreover have "length (takeWhile js_space s) + length (dropWhile js_space s) = length s"
    by (metis length_append takeWhile_dropWhile_id)
  ultimately have "takeWhile js_space s = []" by simp
  then have d: "dropWhile js_space s = s"
    by (metis append_Nil takeWhile_dropWhile_id)
  from eq d have "rev (dropWhile js_space (rev s)) = s" by (simp add: trim_def)
  then have "dropWhile js_space (rev s) = rev s" by (metis rev_rev_ident)
  then have "rev s = [] \<or> \<not> js_space (hd (rev s))" by (simp add: dropWhile_eq_self_iff)
  moreover from d have "s = [] \<or> \<not> js_space (hd s)" by (simp add: dropWhile_eq_self_iff)
  ultimately show "trimmed s" by (auto simp: trimmed_def hd_rev)
next
  assume t: "trimmed s"
  show "trim s = s"
  proof (cases "s = []")
    case True
    then show ?thesis by (simp add: trim_def)
  next
    case False
    with t have h: "\<not> js_space (hd s)" and l: "\<not> js_space (last s)"
      by (auto simp: trimmed_def)
    have d1: "dropWhile js_space s = s"
      using h by (simp add: dropWhile_eq_self_iff)
    have "\<not> js_space (hd (rev s))"
      using l False by (simp add: hd_rev)
    then have d2: "dropWhile js_space (rev s) = rev s"
      by (simp add: dropWhile_eq_self_iff)
    show ?thesis
      by (simp add: trim_def d1 d2)
  qed
qed

lemma dropWhile_idem: "dropWhile P (dropWhile P xs) = dropWhile P xs"
  by (induction xs) auto

lemma words_dropWhile: "words (dropWhile js_space s) = words s"
proof -
  have "words (dropWhile js_space s) =
     (let t = dropWhile js_space (dropWhile js_space s)
      in if t = [] then []
         else takeWhile (\<lambda>c. \<not> js_space c) t # words (dropWhile (\<lambda>c. \<not> js_space c) t))"
    by (rule words.simps)
  also have "\<dots> =
     (let t = dropWhile js_space s
      in if t = [] then []
         else takeWhile (\<lambda>c. \<not> js_space c) t # words (dropWhile (\<lambda>c. \<not> js_space c) t))"
    by (simp only: dropWhile_idem)
  also have "\<dots> = words s"
    by (rule words.simps [symmetric])
  finally show ?thesis .
qed

lemma split_ws_words:
  "s \<noteq> [] \<Longrightarrow> \<not> js_space (hd s) \<Longrightarrow> \<not> js_space (last s) \<Longrightarrow> split_ws s = words s"
proof (induction s rule: split_ws.induct)
  case (1 s)
  define w where "w = takeWhile (\<lambda>c. \<not> js_space c) s"
  define r where "r = dropWhile (\<lambda>c. \<not> js_space c) s"
  have s: "s = w @ r" by (simp add: w_def r_def)
  have ds: "dropWhile js_space s = s"
    using "1.prems" by (simp add: dropWhile_eq_self_iff)
  have ws: "words s = w # words r"
    using "1.prems" ds by (subst words.simps) (simp add: w_def r_def)
  show ?case
  proof (cases "r = []")
    case True
    have "words [] = []" by (subst words.simps) simp
    with True ws have "words s = [w]" by simp
    moreover have "split_ws s = [w]"
      using True unfolding r_def w_def by (subst split_ws.simps) (simp add: Let_def)
    ultimately show ?thesis by simp
  next
    case False
    define t where "t = dropWhile js_space r"
    have lr: "last r = last s" using False s by simp
    have "\<not> js_space (last r)" using lr "1.prems" by simp
    then have tne: "t \<noteq> []"
      using False unfolding t_def by (metis dropWhile_eq_Nil_conv last_in_set)
    have ht: "\<not> js_space (hd t)"
      unfolding t_def using tne hd_dropWhile t_def by metis
    have "last t = last r"
      using tne unfolding t_def by (metis last_appendR takeWhile_dropWhile_id)
    then have lt: "\<not> js_space (last t)" using lr "1.prems" by simp
    have ih: "split_ws t = words t"
      using "1.IH" [of w r] False tne ht lt by (simp add: w_def r_def t_def)
    have "split_ws s = (if r = [] then [w] else w # split_ws t)"
      unfolding w_def r_def t_def by (subst split_ws.simps) (simp only: Let_def)
    then have "split_ws s = w # split_ws t"
      using False by (simp only: if_False)
    moreover have "words t = words r"
      unfolding t_def by (rule words_dropWhile)
    ultimately show ?thesis
      using ws ih by (simp only:)
  qed
qed

lemma wordCount_words: "trim s = s \<Longrightarrow> s \<noteq> [] \<Longrightarrow> wordCount s = length (words s)"
  using split_ws_words [of s] by (simp add: wordCount_def trim_eq_self_iff trimmed_def)

lemma js_includes_sublist: "js_includes s t \<longleftrightarrow> sublist t s"
  by (induction s) (simp_all add: sublist_Cons_right)

lemma split_ws_nonempty: "split_ws s \<noteq> []"
  by (subst split_ws.simps) (simp add: Let_def)

lemma fraction_exceeds: "0 < n \<Longrightarrow> (real k / real n > 6 / 10) \<longleftrightarrow> 6 * n < 10 * k"
proof -
  assume n: "0 < n"
  have "(real k / real n > 6 / 10) \<longleftrightarrow> real (6 * n) < real (10 * k)"
    using n by (simp add: field_simps)
  also have "\<dots> \<longleftrightarrow> 6 * n < 10 * k"
    by (rule of_nat_less_iff)
  finally show ?thesis .
qed

lemma isEcho_iff:
  "isEcho tts t \<longleftrightarrow>
     tts \<noteq> [] \<and>
     (sublist (norm_str t) (norm_str tts) \<or> sublist (norm_str tts) (norm_str t) \<or>
      6 * length (split_ws (norm_str t))
        < 10 * length (filter (\<lambda>w. w \<in> set (split_ws (norm_str tts))) (split_ws (norm_str t))))"
proof -
  have "0 < length (split_ws (norm_str t))"
    using split_ws_nonempty [of "norm_str t"] by simp
  then show ?thesis
    using fraction_exceeds [of "length (split_ws (norm_str t))"
        "length (filter (\<lambda>w. w \<in> set (split_ws (norm_str tts))) (split_ws (norm_str t)))"]
    by (simp add: isEcho_def Let_def js_includes_sublist)
qed

lemma trim_subset: "set (trim s) \<subseteq> set s"
proof -
  have "set (dropWhile js_space (rev (dropWhile js_space s))) \<subseteq> set (rev (dropWhile js_space s))"
    by (rule set_dropWhileD [THEN subsetI])
  also have "\<dots> \<subseteq> set s"
    using set_dropWhileD [of _ js_space s] by auto
  finally show ?thesis by (simp add: trim_def)
qed

lemma trim_trimmed: "trimmed (trim s)"
proof -
  define u where "u = dropWhile js_space s"
  define v where "v = dropWhile js_space (rev u)"
  have t: "trim s = rev v" by (simp add: trim_def u_def v_def)
  show ?thesis
  proof (cases "v = []")
    case True
    with t show ?thesis by (simp add: trimmed_def)
  next
    case False
    have hv: "\<not> js_space (hd v)"
      using False hd_dropWhile [of js_space "rev u"] by (simp add: v_def)
    have "rev u \<noteq> []" using False by (auto simp: v_def)
    then have une: "u \<noteq> []" by simp
    then have hu: "\<not> js_space (hd u)"
      using hd_dropWhile [of js_space s] by (simp add: u_def)
    have "last v = last (rev u)"
      using False unfolding v_def by (metis last_appendR takeWhile_dropWhile_id)
    then have "last v = hd u" using une by (simp add: last_rev)
    with hu hv False t show ?thesis
      by (simp add: trimmed_def hd_rev last_rev)
  qed
qed

lemma norm_shape:
  "trimmed (norm_str s) \<and> (\<forall>c \<in> set (norm_str s). ascii_lower c \<or> ascii_digit c \<or> js_space c)"
  using trim_trimmed trim_subset [of "filter (\<lambda>c. ascii_lower c \<or> ascii_digit c \<or> js_space c) (toLowerCase s)"]
  by (auto simp: norm_str_def)

lemma ends_seq_Nil_fun: "ends_seq [] s = (\<lambda>i. [i])"
  by (rule ext) simp

lemma concat_singletons: "concat (map (\<lambda>j. [j]) xs) = xs"
  by (induction xs) simp_all

lemma ends_leadingSeparators:
  "ends leadingSeparators s i =
     (if i = 0 then rev [1..<Suc (length (takeWhile separator s))] else [])"
  by (simp add: leadingSeparators_def ends_seq_Nil_fun concat_singletons comp_def del: upt_Suc)

lemma remove_leading: "rx_remove_first leadingSeparators s = dropWhile separator s"
proof -
  define n where "n = length (takeWhile separator s)"
  show ?thesis
  proof (cases "n = 0")
    case True
    then have "\<And>i. ends leadingSeparators s i = []"
      by (simp add: ends_leadingSeparators n_def)
    then have "rx_exec leadingSeparators s = None"
      by (simp add: rx_exec_def find_None_iff)
    moreover have "dropWhile separator s = s"
      using True by (metis n_def length_0_conv append_Nil takeWhile_dropWhile_id)
    ultimately show ?thesis by (simp add: rx_remove_first_def)
  next
    case False
    have e0: "ends leadingSeparators s 0 = rev [1..<Suc n]"
      by (simp add: ends_leadingSeparators n_def)
    have ne: "ends leadingSeparators s 0 \<noteq> []"
      using False by (simp add: e0)
    have hd: "hd (ends leadingSeparators s 0) = n"
      using False by (simp add: e0 hd_rev)
    have "[0..<Suc (length s)] = 0 # [1..<Suc (length s)]"
      by (simp add: upt_rec)
    then have "List.find (\<lambda>i. ends leadingSeparators s i \<noteq> []) [0..<Suc (length s)] = Some 0"
      using ne by simp
    then have "rx_exec leadingSeparators s = Some (0, n)"
      using hd by (simp add: rx_exec_def)
    then have "rx_remove_first leadingSeparators s = drop n s"
      by (simp add: rx_remove_first_def)
    then show ?thesis
      by (simp add: n_def dropWhile_eq_drop)
  qed
qed

lemma stripWakeWord_match:
  assumes "rx_exec wakePattern raw = Some (i, j)"
  shows "stripWakeWord raw =
     (let t = trim (dropWhile separator (take i raw @ drop j raw))
      in if t = [] then greeting else t)"
proof -
  have "rx_remove_first wakePattern raw = take i raw @ drop j raw"
    using assms by (simp add: rx_remove_first_def)
  then show ?thesis
    by (simp only: stripWakeWord_def remove_leading)
qed

lemma trim_after_separators:
  assumes "trimmed raw"
  shows "trim (dropWhile separator (drop j raw)) = dropWhile separator (drop j raw)"
proof -
  define t where "t = dropWhile separator (drop j raw)"
  have "trimmed t"
  proof (cases "t = []")
    case True
    then show ?thesis by (simp add: trimmed_def)
  next
    case False
    have "\<not> separator (hd t)"
      using False hd_dropWhile [of separator "drop j raw"] by (simp add: t_def)
    then have h: "\<not> js_space (hd t)" by (simp add: separator_def)
    have d: "drop j raw \<noteq> []" using False by (auto simp: t_def)
    then have jl: "j < length raw" by simp
    have "last t = last (drop j raw)"
      using False unfolding t_def by (metis last_appendR takeWhile_dropWhile_id)
    also have "\<dots> = last raw" using jl by (rule last_drop)
    finally have "last t = last raw" .
    moreover have "raw \<noteq> []" using jl by auto
    ultimately have "\<not> js_space (last t)"
      using assms by (simp add: trimmed_def)
    with h show ?thesis by (simp add: trimmed_def)
  qed
  then show ?thesis
    unfolding t_def by (simp add: trim_eq_self_iff)
qed

lemma canon_stop_chars:
  "canonicalize CHR ''s'' = CHR ''S''" "canonicalize CHR ''t'' = CHR ''T''"
  "canonicalize CHR ''o'' = CHR ''O''" "canonicalize CHR ''p'' = CHR ''P''"
  "canonicalize CHR ''.'' = CHR ''.''"
  by code_simp+

lemma rx_test_iff: "rx_test r s \<longleftrightarrow> (\<exists>i \<le> length s. ends r s i \<noteq> [])"
  by (auto simp: rx_test_def rx_exec_def find_None_iff order_le_less)

lemma ends_stop:
  "ends stopPattern s i \<noteq> [] \<longleftrightarrow>
     i = 0 \<and> map canonicalize (take 4 s) = ''STOP'' \<and>
     (length s = 4 \<or> (length s = 5 \<and> map canonicalize (take 1 (drop 4 s)) = ''.''))"
  by (auto simp: stopPattern_def ends_seq_Nil_fun canon_stop_chars eval_nat_numeral split: if_splits)

lemma stop_test_iff:
  "rx_test stopPattern s \<longleftrightarrow> map canonicalize s = ''STOP'' \<or> map canonicalize s = ''STOP.''"
proof -
  have "rx_test stopPattern s \<longleftrightarrow>
      map canonicalize (take 4 s) = ''STOP'' \<and>
      (length s = 4 \<or> (length s = 5 \<and> map canonicalize (take 1 (drop 4 s)) = ''.''))"
    unfolding rx_test_iff ends_stop by auto
  also have "\<dots> \<longleftrightarrow> map canonicalize s = ''STOP'' \<or> map canonicalize s = ''STOP.''"
  proof
    assume h: "map canonicalize (take 4 s) = ''STOP'' \<and>
      (length s = 4 \<or> (length s = 5 \<and> map canonicalize (take 1 (drop 4 s)) = ''.''))"
    show "map canonicalize s = ''STOP'' \<or> map canonicalize s = ''STOP.''"
    proof (cases "length s = 4")
      case True
      with h show ?thesis by simp
    next
      case False
      with h have l: "length s = 5" and d: "map canonicalize (take 1 (drop 4 s)) = ''.''"
        by auto
      have "take 1 (drop 4 s) = drop 4 s"
        using l by simp
      then have "s = take 4 s @ take 1 (drop 4 s)"
        by simp
      then have "map canonicalize s = map canonicalize (take 4 s) @ map canonicalize (take 1 (drop 4 s))"
        by (metis map_append)
      with h d show ?thesis by simp
    qed
  next
    assume "map canonicalize s = ''STOP'' \<or> map canonicalize s = ''STOP.''"
    then show "map canonicalize (take 4 s) = ''STOP'' \<and>
      (length s = 4 \<or> (length s = 5 \<and> map canonicalize (take 1 (drop 4 s)) = ''.''))"
    proof
      assume e: "map canonicalize s = ''STOP''"
      then have "length (map canonicalize s) = 4" by simp
      then have "length s = 4" by simp
      with e show ?thesis by simp
    next
      assume e: "map canonicalize s = ''STOP.''"
      then have "length (map canonicalize s) = 5" by simp
      then have l: "length s = 5" by simp
      have "map canonicalize (take 4 s) = take 4 (map canonicalize s)"
        by (simp add: take_map)
      moreover have "map canonicalize (take 1 (drop 4 s)) = take 1 (drop 4 (map canonicalize s))"
        by (simp add: take_map drop_map)
      ultimately show ?thesis
        using l unfolding e by simp
    qed
  qed
  finally show ?thesis .
qed

section \<open>Facts about the handlers\<close>

lemma stop_not_blank: "\<not> rx_test stopPattern []"
  by code_simp

lemma respond_effects:
  "\<exists>rest. fst (respond rt au clk cmd st) = acknowledgment # fst (processInboundMessage rt cmd None) @ rest"
  by (auto simp: respond_def tryTranscription_def Let_def split: sum.splits prod.splits)

lemma stripWakeWord_nonempty: "stripWakeWord raw \<noteq> []"
  by (simp add: stripWakeWord_def Let_def greeting_def)

lemma producedChunks_nonempty: "x \<in> set (producedChunks cbs) \<Longrightarrow> x \<noteq> []"
  by (induction cbs rule: producedChunks.induct) (auto split: if_splits)

lemma joinLines_glue: "joinLines ((a @ newline @ b) # rest) = a @ newline @ joinLines (b # rest)"
  by (cases rest) (simp_all add: newline_def)

lemma runCallbacks_collect:
  "snd (runCallbacks cbs acc) = joinLines ((if acc = [] then [] else [acc]) @ producedChunks cbs)"
proof (induction cbs acc rule: runCallbacks.induct)
  case (1 acc)
  then show ?case by simp
next
  case (2 p cs acc)
  show ?case
  proof (cases p)
    case None
    with 2 show ?thesis by (simp add: deliver_def)
  next
    case (Some t)
    show ?thesis
    proof (cases "trim t = []")
      case True
      with 2 Some show ?thesis by (simp add: deliver_def)
    next
      case False
      show ?thesis
      proof (cases "acc = []")
        case True
        with 2 Some False show ?thesis by (simp add: deliver_def)
      next
        case nonempty: False
        have "deliver acc p = acc @ newline @ trim t"
          using Some False nonempty by (simp add: deliver_def)
        moreover have "joinLines (acc # trim t # producedChunks cs)
            = acc @ newline @ joinLines (trim t # producedChunks cs)"
          by (simp add: newline_def)
        ultimately show ?thesis
          using 2 Some False nonempty by (simp add: joinLines_glue)
      qed
    qed
  qed
next
  case (3 e cs acc)
  then show ?case by simp
qed

lemma joinLines_empty_iff: "(\<forall>x \<in> set xs. x \<noteq> []) \<Longrightarrow> joinLines xs = [] \<longleftrightarrow> xs = []"
  by (induction xs rule: joinLines.induct) auto

lemma collected_reply: "snd (runCallbacks cbs []) = joinLines (producedChunks cbs)"
  using runCallbacks_collect [of cbs "[]"] by simp

lemma collected_reply_empty: "snd (runCallbacks cbs []) = [] \<longleftrightarrow> producedChunks cbs = []"
  unfolding collected_reply
  by (rule joinLines_empty_iff) (simp add: producedChunks_nonempty)

lemma process_result:
  assumes "reachesDispatch rt"
  shows "snd (processInboundMessage rt body media) =
     (case snd (dispatchReply rt) of
        Inl e \<Rightarrow> Inl e
      | Inr _ \<Rightarrow> Inr (if snd (runCallbacks (fst (dispatchReply rt)) []) \<noteq> []
                      then Some (snd (runCallbacks (fst (dispatchReply rt)) [])) else None))"
  using assms
  by (auto simp: reachesDispatch_def succeeds_def processInboundMessage_def andThen_def call_def
      recordInboundSessionCall_def dispatchCall_def Let_def split: sum.splits)

lemma process_returns:
  assumes "snd (processInboundMessage rt body media) = Inr v"
  shows "reachesDispatch rt \<and> succeeds (snd (dispatchReply rt))"
  using assms
  by (auto simp: reachesDispatch_def succeeds_def processInboundMessage_def andThen_def call_def
      recordInboundSessionCall_def dispatchCall_def Let_def split: sum.splits)

lemma accepted_shape:
  assumes "verdict (onTranscription rt au clk data st) = Accepted cmd"
  shows "effects (onTranscription rt au clk data st) = fst (respond rt au clk cmd st)
     \<and> state (onTranscription rt au clk data st) = snd (respond rt au clk cmd st)"
  using assms by (auto simp: onTranscription_def Let_def split: if_splits)

lemma process_reply_nonempty:
  assumes "snd (processInboundMessage rt body media) = Inr (Some r)"
  shows "r \<noteq> []"
proof -
  have rd: "reachesDispatch rt" and "succeeds (snd (dispatchReply rt))"
    using process_returns [OF assms] by simp_all
  then obtain u where "snd (dispatchReply rt) = Inr u"
    by (auto simp: succeeds_def split: sum.splits)
  then have "snd (processInboundMessage rt body media) =
      Inr (if snd (runCallbacks (fst (dispatchReply rt)) []) \<noteq> []
           then Some (snd (runCallbacks (fst (dispatchReply rt)) [])) else None)"
    using process_result [OF rd, of body media] by simp
  with assms show ?thesis
    by (auto split: if_splits)
qed

lemma process_reply_truthy:
  "snd (processInboundMessage rt body media) = Inr (Some r) \<Longrightarrow> truthy (Some r)"
  using process_reply_nonempty by (simp add: truthy_def)



lemma respond_reply:
  assumes "snd (processInboundMessage rt cmd None) = Inr (Some r)"
  shows "recentTtsText (snd (respond rt au clk cmd st)) = r
     \<and> speakingUntil (snd (respond rt au clk cmd st)) = nowBeforeSpeak clk + estimateTtsDurationMs r
     \<and> Speak r 2 True \<in> set (fst (respond rt au clk cmd st))
     \<and> (speakReply au = Inr () \<longrightarrow>
          listenWindowUntil (snd (respond rt au clk cmd st)) = nowAfterSpeak clk + 30000)
     \<and> ((\<exists>e. speakReply au = Inl e) \<longrightarrow>
          listenWindowUntil (snd (respond rt au clk cmd st)) = listenWindowUntil st)"
  using assms process_reply_truthy [OF assms]
  by (auto simp: respond_def tryTranscription_def Let_def LISTEN_WINDOW_MS_def split: sum.splits)

section \<open>The speech-duration estimate\<close>

text \<open>
  C5. For every text the estimate is \<open>max(2000, wordCount(text) * 130 + 1000)\<close> milliseconds,
  where the word count is the number of pieces that splitting at whitespace runs gives. For
  a text without whitespace at its ends, as every reply is, that is the number of its
  words (a text with whitespace at an end counts an empty piece there as well). The
  estimate of "hello there" is 2000, and the estimate of every reply of 20 words is 3600.
\<close>

theorem estimate_formula:
  "estimateTtsDurationMs text = max 2000 (int (wordCount text) * 130 + 1000)
   \<and> (trim text = text \<and> text \<noteq> [] \<longrightarrow> wordCount text = length (words text))
   \<and> estimateTtsDurationMs ''hello there'' = 2000
   \<and> (trim text = text \<and> length (words text) = 20 \<longrightarrow> estimateTtsDurationMs text = 3600)"
proof -
  have a: "estimateTtsDurationMs text = max 2000 (int (wordCount text) * 130 + 1000)"
    by (simp add: estimateTtsDurationMs_def wordCount_def)
  have b: "trim text = text \<and> text \<noteq> [] \<longrightarrow> wordCount text = length (words text)"
    using wordCount_words by blast
  have c: "estimateTtsDurationMs ''hello there'' = 2000"
    by code_simp
  have d: "trim text = text \<and> length (words text) = 20 \<longrightarrow> estimateTtsDurationMs text = 3600"
  proof
    assume h: "trim text = text \<and> length (words text) = 20"
    have "words [] = []" by (subst words.simps) simp
    with h have "text \<noteq> []" by auto
    with h b have "wordCount text = 20" by simp
    with a show "estimateTtsDurationMs text = 3600" by simp
  qed
  from a b c d show ?thesis by blast
qed

theorem estimate_formula_witness:
  "trim ''a b c d e f g h i j k l m n o p q r s t'' = ''a b c d e f g h i j k l m n o p q r s t''
   \<and> length (words ''a b c d e f g h i j k l m n o p q r s t'') = 20
   \<and> wordCount ''a b c d e f g h i j k l m n o p q r s t'' = 20
   \<and> estimateTtsDurationMs ''a b c d e f g h i j k l m n o p q r s t'' = 3600"
proof -
  have t: "trim ''a b c d e f g h i j k l m n o p q r s t'' = ''a b c d e f g h i j k l m n o p q r s t''"
    by code_simp
  have w: "length (words ''a b c d e f g h i j k l m n o p q r s t'') = 20"
    by code_simp
  show ?thesis
    using t w estimate_formula [of "''a b c d e f g h i j k l m n o p q r s t''"] by simp
qed

section \<open>The voice gate\<close>

text \<open>
  C1. A final transcription whose text is not blank, heard when the clock has reached
  \<open>speakingUntil\<close>, that is not a stop command and not an echo of \<open>recentTtsText\<close>, and
  that either matches the wake pattern or is heard strictly before \<open>listenWindowUntil\<close>, is
  accepted: a command text that is not empty is extracted, the acknowledgment is spoken and
  the inbound pipeline is run on the command. The two readings of the clock are kept apart
  (\<open>nowSuppress\<close> for the suppression test, \<open>nowWindow\<close> for the listen window).
\<close>

theorem gate_accepts:
  assumes "isFinal data" and "trim (dataText data) \<noteq> []"
    and "speakingUntil st \<le> nowSuppress clk"
    and "\<not> rx_test stopPattern (trim (dataText data))"
    and "\<not> isEcho (recentTtsText st) (trim (dataText data))"
    and "rx_test wakePattern (trim (dataText data)) \<or> nowWindow clk < listenWindowUntil st"
  shows "\<exists>cmd rest. cmd \<noteq> []
      \<and> verdict (onTranscription rt au clk data st) = Accepted cmd
      \<and> effects (onTranscription rt au clk data st)
          = acknowledgment # fst (processInboundMessage rt cmd None) @ rest"
proof -
  define raw where "raw = trim (dataText data)"
  define cmd where "cmd = (if rx_test wakePattern raw then stripWakeWord raw else raw)"
  have ne: "cmd \<noteq> []"
    using assms(2) stripWakeWord_nonempty by (simp add: cmd_def raw_def)
  have h: "onTranscription rt au clk data st =
      \<lparr>verdict = Accepted cmd, effects = fst (respond rt au clk cmd st),
       state = snd (respond rt au clk cmd st)\<rparr>"
    using assms by (auto simp: onTranscription_def Let_def cmd_def raw_def)
  obtain rest where "fst (respond rt au clk cmd st)
      = acknowledgment # fst (processInboundMessage rt cmd None) @ rest"
    using respond_effects by blast
  with h ne show ?thesis by auto
qed

theorem gate_accepts_witness:
  "isFinal (heard ''Hey Mentra what time is it'')
   \<and> trim (dataText (heard ''Hey Mentra what time is it'')) \<noteq> []
   \<and> speakingUntil initial_state \<le> nowSuppress (clockAt 1000)
   \<and> \<not> rx_test stopPattern (trim (dataText (heard ''Hey Mentra what time is it'')))
   \<and> \<not> isEcho (recentTtsText initial_state) (trim (dataText (heard ''Hey Mentra what time is it'')))
   \<and> rx_test wakePattern (trim (dataText (heard ''Hey Mentra what time is it'')))
   \<and> (\<exists>cmd rest. cmd \<noteq> []
      \<and> verdict (onTranscription calmRuntime calmAudio (clockAt 1000) (heard ''Hey Mentra what time is it'') initial_state) = Accepted cmd
      \<and> effects (onTranscription calmRuntime calmAudio (clockAt 1000) (heard ''Hey Mentra what time is it'') initial_state)
          = acknowledgment # fst (processInboundMessage calmRuntime cmd None) @ rest)"
proof -
  have 1: "isFinal (heard ''Hey Mentra what time is it'')"
    by (simp add: heard_def)
  have 2: "trim (dataText (heard ''Hey Mentra what time is it'')) \<noteq> []"
    by code_simp
  have 3: "speakingUntil initial_state \<le> nowSuppress (clockAt 1000)"
    by (simp add: initial_state_def clockAt_def)
  have 4: "\<not> rx_test stopPattern (trim (dataText (heard ''Hey Mentra what time is it'')))"
    by code_simp
  have 5: "\<not> isEcho (recentTtsText initial_state) (trim (dataText (heard ''Hey Mentra what time is it'')))"
    by (simp add: initial_state_def isEcho_def)
  have 6: "rx_test wakePattern (trim (dataText (heard ''Hey Mentra what time is it'')))"
    by code_simp
  from 6 have 7: "rx_test wakePattern (trim (dataText (heard ''Hey Mentra what time is it'')))
      \<or> nowWindow (clockAt 1000) < listenWindowUntil initial_state" ..
  show ?thesis
    using 1 2 3 4 5 6 gate_accepts [OF 1 2 3 4 5 7, of calmRuntime calmAudio] by blast
qed

text \<open>
  C2, as amended. The stop pattern matches exactly the texts \<open>stop\<close> and \<open>stop.\<close>, in any
  letter case: the only punctuation it allows after the word is one period.
  A final transcription whose trimmed text matches it is handled before every other filter,
  whatever the timers, the echo text and the clock are: playback is cancelled, both timers
  become 0, the echo text becomes empty, and nothing else happens; in particular nothing
  is spoken and the pipeline is not run.
\<close>

theorem stop_command:
  "(rx_test stopPattern raw \<longleftrightarrow>
      map canonicalize raw = ''STOP'' \<or> map canonicalize raw = ''STOP.'')
   \<and> (isFinal data \<and> rx_test stopPattern (trim (dataText data)) \<longrightarrow>
      onTranscription rt au clk data st =
        \<lparr>verdict = StopCommand, effects = [StopAudio],
         state = \<lparr>listenWindowUntil = 0, speakingUntil = 0, recentTtsText = []\<rparr>\<rparr>)"
proof -
  have "isFinal data \<and> rx_test stopPattern (trim (dataText data)) \<longrightarrow>
      onTranscription rt au clk data st =
        \<lparr>verdict = StopCommand, effects = [StopAudio],
         state = \<lparr>listenWindowUntil = 0, speakingUntil = 0, recentTtsText = []\<rparr>\<rparr>"
  proof
    assume h: "isFinal data \<and> rx_test stopPattern (trim (dataText data))"
    then have "trim (dataText data) \<noteq> []"
      using stop_not_blank by auto
    with h show "onTranscription rt au clk data st =
        \<lparr>verdict = StopCommand, effects = [StopAudio],
         state = \<lparr>listenWindowUntil = 0, speakingUntil = 0, recentTtsText = []\<rparr>\<rparr>"
      by (simp add: onTranscription_def Let_def)
  qed
  with stop_test_iff [of raw] show ?thesis by (rule conjI)
qed

theorem stop_command_witness:
  "isFinal (heard ''  Stop. '') \<and> rx_test stopPattern (trim (dataText (heard ''  Stop. '')))
   \<and> map canonicalize (trim (dataText (heard ''  Stop. ''))) = ''STOP.''
   \<and> onTranscription calmRuntime calmAudio (clockAt 500) (heard ''  Stop. '') busyState =
     \<lparr>verdict = StopCommand, effects = [StopAudio],
      state = \<lparr>listenWindowUntil = 0, speakingUntil = 0, recentTtsText = []\<rparr>\<rparr>"
proof -
  have 1: "isFinal (heard ''  Stop. '')"
    by (simp add: heard_def)
  have c: "map canonicalize (trim (dataText (heard ''  Stop. ''))) = ''STOP.''"
    by code_simp
  note inst = stop_command [of "trim (dataText (heard ''  Stop. ''))" "heard ''  Stop. ''"
      calmRuntime calmAudio "clockAt 500" busyState]
  have iff: "rx_test stopPattern (trim (dataText (heard ''  Stop. ''))) \<longleftrightarrow>
      map canonicalize (trim (dataText (heard ''  Stop. ''))) = ''STOP''
      \<or> map canonicalize (trim (dataText (heard ''  Stop. ''))) = ''STOP.''"
    using inst by (rule conjunct1)
  have 2: "rx_test stopPattern (trim (dataText (heard ''  Stop. '')))"
    unfolding iff using c by (rule disjI2)
  have imp: "isFinal (heard ''  Stop. '') \<and> rx_test stopPattern (trim (dataText (heard ''  Stop. ''))) \<longrightarrow>
      onTranscription calmRuntime calmAudio (clockAt 500) (heard ''  Stop. '') busyState =
        \<lparr>verdict = StopCommand, effects = [StopAudio],
         state = \<lparr>listenWindowUntil = 0, speakingUntil = 0, recentTtsText = []\<rparr>\<rparr>"
    using inst by (rule conjunct2)
  from 1 2 have "isFinal (heard ''  Stop. '') \<and> rx_test stopPattern (trim (dataText (heard ''  Stop. '')))"
    by (rule conjI)
  with imp have 3: "onTranscription calmRuntime calmAudio (clockAt 500) (heard ''  Stop. '') busyState =
     \<lparr>verdict = StopCommand, effects = [StopAudio],
      state = \<lparr>listenWindowUntil = 0, speakingUntil = 0, recentTtsText = []\<rparr>\<rparr>"
    by (rule mp)
  from 1 2 c 3 show ?thesis by (intro conjI)
qed

text \<open>
  The claim as worded, with any punctuation after the word, fails: "Stop!" is not a stop
  command for the code. While the reply is being spoken it is suppressed and the timers
  and the echo text stay; inside the listen window it is accepted as a follow-up, sent
  through the pipeline, and the reply to it is spoken.
\<close>

theorem stop_command_counterexample:
  "claimedStop ''Stop!''
   \<and> \<not> rx_test stopPattern ''Stop!''
   \<and> onTranscription calmRuntime calmAudio (clockAt 500) (heard ''Stop!'') busyState =
       \<lparr>verdict = SuppressedSpeaking, effects = [], state = busyState\<rparr>
   \<and> verdict (onTranscription calmRuntime calmAudio (clockAt 20000) (heard ''Stop!'') busyState)
       = Accepted ''Stop!''
   \<and> Call DispatchReply
       \<in> set (effects (onTranscription calmRuntime calmAudio (clockAt 20000) (heard ''Stop!'') busyState))
   \<and> state (onTranscription calmRuntime calmAudio (clockAt 20000) (heard ''Stop!'') busyState) =
       \<lparr>listenWindowUntil = 50000, speakingUntil = 22000, recentTtsText = ''Four''\<rparr>"
  by code_simp

text \<open>
  C10. A rejected transcription leaves the listen state as it was, with one exception. A
  transcription that is not final or is blank, one suppressed because the reply is still
  being spoken, and one without wake word outside the listen window change none of
  \<open>listenWindowUntil\<close>, \<open>speakingUntil\<close> and \<open>recentTtsText\<close>; a transcription rejected as
  an echo changes \<open>recentTtsText\<close> only, to the empty text. None of the four speaks, acknowledges
  or runs the pipeline: the trace is empty.
\<close>

theorem rejections_frame:
  "(\<not> isFinal data \<or> trim (dataText data) = [] \<longrightarrow>
      onTranscription rt au clk data st = \<lparr>verdict = Ignored, effects = [], state = st\<rparr>)
   \<and> (isFinal data \<and> trim (dataText data) \<noteq> [] \<and> \<not> rx_test stopPattern (trim (dataText data))
        \<and> nowSuppress clk < speakingUntil st \<longrightarrow>
      onTranscription rt au clk data st = \<lparr>verdict = SuppressedSpeaking, effects = [], state = st\<rparr>)
   \<and> (isFinal data \<and> trim (dataText data) \<noteq> [] \<and> \<not> rx_test stopPattern (trim (dataText data))
        \<and> speakingUntil st \<le> nowSuppress clk \<and> isEcho (recentTtsText st) (trim (dataText data)) \<longrightarrow>
      onTranscription rt au clk data st =
        \<lparr>verdict = SuppressedEcho, effects = [],
         state = \<lparr>listenWindowUntil = listenWindowUntil st, speakingUntil = speakingUntil st,
                  recentTtsText = []\<rparr>\<rparr>)
   \<and> (isFinal data \<and> trim (dataText data) \<noteq> [] \<and> \<not> rx_test stopPattern (trim (dataText data))
        \<and> speakingUntil st \<le> nowSuppress clk \<and> \<not> isEcho (recentTtsText st) (trim (dataText data))
        \<and> \<not> rx_test wakePattern (trim (dataText data)) \<and> listenWindowUntil st \<le> nowWindow clk \<longrightarrow>
      onTranscription rt au clk data st = \<lparr>verdict = NoWakeWord, effects = [], state = st\<rparr>)"
  by (simp add: onTranscription_def Let_def)

theorem rejections_frame_witness:
  "onTranscription calmRuntime calmAudio (clockAt 500) \<lparr>dataText = ''hello'', isFinal = False\<rparr> busyState
     = \<lparr>verdict = Ignored, effects = [], state = busyState\<rparr>
   \<and> onTranscription calmRuntime calmAudio (clockAt 500) (heard ''hello there'') busyState
     = \<lparr>verdict = SuppressedSpeaking, effects = [], state = busyState\<rparr>
   \<and> onTranscription calmRuntime calmAudio (clockAt 20000) (heard ''four'') busyState
     = \<lparr>verdict = SuppressedEcho, effects = [],
        state = \<lparr>listenWindowUntil = 50000, speakingUntil = 9000, recentTtsText = []\<rparr>\<rparr>
   \<and> onTranscription calmRuntime calmAudio (clockAt 60000) (heard ''what time is it'') busyState
     = \<lparr>verdict = NoWakeWord, effects = [], state = busyState\<rparr>"
proof -
  have a: "\<not> isFinal \<lparr>dataText = ''hello'', isFinal = False\<rparr>"
    by simp
  have b: "isFinal (heard ''hello there'') \<and> trim (dataText (heard ''hello there'')) \<noteq> []
      \<and> \<not> rx_test stopPattern (trim (dataText (heard ''hello there'')))
      \<and> nowSuppress (clockAt 500) < speakingUntil busyState"
    by code_simp
  have c: "isFinal (heard ''four'') \<and> trim (dataText (heard ''four'')) \<noteq> []
      \<and> \<not> rx_test stopPattern (trim (dataText (heard ''four'')))
      \<and> speakingUntil busyState \<le> nowSuppress (clockAt 20000)
      \<and> isEcho (recentTtsText busyState) (trim (dataText (heard ''four'')))"
    by code_simp
  have d: "isFinal (heard ''what time is it'') \<and> trim (dataText (heard ''what time is it'')) \<noteq> []
      \<and> \<not> rx_test stopPattern (trim (dataText (heard ''what time is it'')))
      \<and> speakingUntil busyState \<le> nowSuppress (clockAt 60000)
      \<and> \<not> isEcho (recentTtsText busyState) (trim (dataText (heard ''what time is it'')))
      \<and> \<not> rx_test wakePattern (trim (dataText (heard ''what time is it'')))
      \<and> listenWindowUntil busyState \<le> nowWindow (clockAt 60000)"
    by code_simp
  have s: "listenWindowUntil busyState = 50000 \<and> speakingUntil busyState = 9000"
    by (simp add: busyState_def)
  show ?thesis
    using a b c d s
      rejections_frame [of "\<lparr>dataText = ''hello'', isFinal = False\<rparr>" calmRuntime calmAudio "clockAt 500" busyState]
      rejections_frame [of "heard ''hello there''" calmRuntime calmAudio "clockAt 500" busyState]
      rejections_frame [of "heard ''four''" calmRuntime calmAudio "clockAt 20000" busyState]
      rejections_frame [of "heard ''what time is it''" calmRuntime calmAudio "clockAt 60000" busyState]
    by simp
qed

section \<open>The inbound pipeline\<close>

text \<open>
  C7, as amended. The delivery callback trims the text of every delivery and accumulates
  the trimmed texts that are not empty, in the order of arrival, joined by the line feed
  character; a delivery without text, or whose text is only whitespace, adds nothing. When every
  call of the pipeline returns, the pipeline returns that accumulated text, or no reply
  when no delivery had such text; and whenever the pipeline returns, this is what it
  returns.
\<close>

theorem pipeline_reply:
  "(reachesDispatch rt \<and> succeeds (snd (dispatchReply rt)) \<longrightarrow>
      snd (processInboundMessage rt body media) =
        Inr (if producedChunks (fst (dispatchReply rt)) = [] then None
             else Some (joinLines (producedChunks (fst (dispatchReply rt))))))
   \<and> (snd (processInboundMessage rt body media) = Inr v \<longrightarrow>
      v = (if producedChunks (fst (dispatchReply rt)) = [] then None
           else Some (joinLines (producedChunks (fst (dispatchReply rt))))))"
proof -
  have a: "reachesDispatch rt \<and> succeeds (snd (dispatchReply rt)) \<longrightarrow>
      snd (processInboundMessage rt body media) =
        Inr (if producedChunks (fst (dispatchReply rt)) = [] then None
             else Some (joinLines (producedChunks (fst (dispatchReply rt)))))"
  proof
    assume h: "reachesDispatch rt \<and> succeeds (snd (dispatchReply rt))"
    then obtain u where u: "snd (dispatchReply rt) = Inr u"
      by (auto simp: succeeds_def split: sum.splits)
    define c where "c = snd (runCallbacks (fst (dispatchReply rt)) [])"
    have c1: "c = joinLines (producedChunks (fst (dispatchReply rt)))"
      and c2: "c = [] \<longleftrightarrow> producedChunks (fst (dispatchReply rt)) = []"
      unfolding c_def by (rule collected_reply, rule collected_reply_empty)
    have "snd (processInboundMessage rt body media) = Inr (if c \<noteq> [] then Some c else None)"
      using h u process_result [of rt body media] by (simp add: c_def)
    also have "\<dots> = Inr (if producedChunks (fst (dispatchReply rt)) = [] then None
             else Some (joinLines (producedChunks (fst (dispatchReply rt)))))"
      using c1 c2 by (cases "c = []") auto
    finally show "snd (processInboundMessage rt body media) =
        Inr (if producedChunks (fst (dispatchReply rt)) = [] then None
             else Some (joinLines (producedChunks (fst (dispatchReply rt)))))" .
  qed
  have b: "snd (processInboundMessage rt body media) = Inr v \<longrightarrow>
      v = (if producedChunks (fst (dispatchReply rt)) = [] then None
           else Some (joinLines (producedChunks (fst (dispatchReply rt)))))"
  proof
    assume r: "snd (processInboundMessage rt body media) = Inr v"
    then have "reachesDispatch rt \<and> succeeds (snd (dispatchReply rt))"
      by (rule process_returns)
    with a have "snd (processInboundMessage rt body media) =
        Inr (if producedChunks (fst (dispatchReply rt)) = [] then None
             else Some (joinLines (producedChunks (fst (dispatchReply rt)))))"
      by (rule mp)
    with r show "v = (if producedChunks (fst (dispatchReply rt)) = [] then None
           else Some (joinLines (producedChunks (fst (dispatchReply rt)))))"
      by (simp only: sum.inject)
  qed
  from a b show ?thesis by (rule conjI)
qed

theorem pipeline_reply_witness:
  "reachesDispatch chattyRuntime \<and> succeeds (snd (dispatchReply chattyRuntime))
   \<and> snd (processInboundMessage chattyRuntime ''what is two plus two'' None)
       = Inr (Some (''Four'' @ [CHR 0x0A] @ ''is the answer.''))
   \<and> reachesDispatch muteRuntime \<and> succeeds (snd (dispatchReply muteRuntime))
   \<and> snd (processInboundMessage muteRuntime ''what is two plus two'' None) = Inr None"
proof -
  have r: "reachesDispatch chattyRuntime \<and> succeeds (snd (dispatchReply chattyRuntime))"
    by (simp add: reachesDispatch_def succeeds_def chattyRuntime_def calmRuntime_def)
  have c: "producedChunks (fst (dispatchReply chattyRuntime)) = [''Four'', ''is the answer.'']"
    by code_simp
  have r': "reachesDispatch muteRuntime \<and> succeeds (snd (dispatchReply muteRuntime))"
    by (simp add: reachesDispatch_def succeeds_def muteRuntime_def calmRuntime_def)
  have c': "producedChunks (fst (dispatchReply muteRuntime)) = []"
    by code_simp
  have j: "joinLines [''Four'', ''is the answer.''] = ''Four'' @ [CHR 0x0A] @ ''is the answer.''"
    by simp
  have "snd (processInboundMessage chattyRuntime ''what is two plus two'' None) =
      Inr (if producedChunks (fst (dispatchReply chattyRuntime)) = [] then None
           else Some (joinLines (producedChunks (fst (dispatchReply chattyRuntime)))))"
    using r pipeline_reply [of chattyRuntime "''what is two plus two''" None] by blast
  then have 1: "snd (processInboundMessage chattyRuntime ''what is two plus two'' None)
       = Inr (Some (''Four'' @ [CHR 0x0A] @ ''is the answer.''))"
    unfolding c j by simp
  have "snd (processInboundMessage muteRuntime ''what is two plus two'' None) =
      Inr (if producedChunks (fst (dispatchReply muteRuntime)) = [] then None
           else Some (joinLines (producedChunks (fst (dispatchReply muteRuntime)))))"
    using r' pipeline_reply [of muteRuntime "''what is two plus two''" None] by blast
  then have 2: "snd (processInboundMessage muteRuntime ''what is two plus two'' None) = Inr None"
    unfolding c' by simp
  from r 1 r' 2 show ?thesis by blast
qed


text \<open>
  The claim as worded, with every chunk that is not empty accumulated as it is, fails: of
  the deliveries "Four", three spaces and " five " the code returns "Four" and "five" on
  two lines, and where the only delivery is three spaces it returns no reply.
\<close>

theorem pipeline_reply_counterexample:
  "snd (processInboundMessage paddedRuntime ''count on'' None)
       = Inr (Some (''Four'' @ [CHR 0x0A] @ ''five''))
   \<and> joinLines (claimedChunks (fst (dispatchReply paddedRuntime)))
       = ''Four'' @ [CHR 0x0A] @ ''   '' @ [CHR 0x0A] @ '' five ''
   \<and> snd (processInboundMessage blankRuntime ''count on'' None) = Inr None
   \<and> claimedChunks (fst (dispatchReply blankRuntime)) = [''   '']"
  by code_simp

text \<open>
  C8. The recording steps of the pipeline and their failures. An error that the recording
  of the inbound session hands to its \<open>onRecordError\<close> callback is logged and the pipeline
  goes on to the dispatch. The write of the session metadata has no such handler: when it
  is rejected, the pipeline ends there with that error, the dispatch is not reached, and
  the transcription handler speaks its apology in place of a reply.
\<close>

theorem metadata_failure_aborts:
  "processInboundMessage fullDiskRuntime ''what time is it'' None =
     ([Call ResolveAgentRoute, Call ResolveStorePath, Call ResolveEnvelopeFormatOptions,
       Call (FormatInboundEnvelope ''what time is it''),
       Call (FinalizeInboundContext ''what time is it'' None),
       Call RecordInboundSession, Call RecordSessionMetaFromInbound],
      Inl ''disk full'')
   \<and> effects (onTranscription fullDiskRuntime calmAudio (clockAt 1000)
        (heard ''Hey Mentra what time is it'') initial_state) =
     [Speak ''Hmm'' 1 False,
      Call ResolveAgentRoute, Call ResolveStorePath, Call ResolveEnvelopeFormatOptions,
      Call (FormatInboundEnvelope ''what time is it''),
      Call (FinalizeInboundContext ''what time is it'' None),
      Call RecordInboundSession, Call RecordSessionMetaFromInbound,
      LogError ''Error processing transcription'' ''disk full'',
      Speak ''Sorry, I encountered an error processing your request.'' 2 True]
   \<and> processInboundMessage busyStoreRuntime ''what time is it'' None =
     ([Call ResolveAgentRoute, Call ResolveStorePath, Call ResolveEnvelopeFormatOptions,
       Call (FormatInboundEnvelope ''what time is it''),
       Call (FinalizeInboundContext ''what time is it'' None),
       Call RecordInboundSession, LogError ''Error recording session'' ''store busy'',
       Call RecordSessionMetaFromInbound, Call ActivityRecord,
       Call ResolveEffectiveMessagesConfig, Call ResolveHumanDelayConfig, Call DispatchReply],
      Inr (Some ''Four''))"
  by code_simp

theorem metadata_failure_aborts_witness:
  "snd (processInboundMessage fullDiskRuntime ''what time is it'' None) = Inl ''disk full''
   \<and> Call DispatchReply \<notin> set (fst (processInboundMessage fullDiskRuntime ''what time is it'' None))
   \<and> snd (processInboundMessage busyStoreRuntime ''what time is it'' None) = Inr (Some ''Four'')"
proof -
  have "Call DispatchReply \<notin> set [Call ResolveAgentRoute, Call ResolveStorePath,
      Call ResolveEnvelopeFormatOptions, Call (FormatInboundEnvelope ''what time is it''),
      Call (FinalizeInboundContext ''what time is it'' None),
      Call RecordInboundSession, Call RecordSessionMetaFromInbound]"
    by simp
  then show ?thesis
    using metadata_failure_aborts by (simp only: fst_conv snd_conv simp_thms)
qed

section \<open>Errors while an utterance or a photo is processed\<close>





section \<open>Echo check, command text and the state after a reply\<close>

text \<open>
  C3, as amended. With an empty \<open>recentTtsText\<close> nothing is an echo. Otherwise both texts
  are normalized by lowercasing, deleting every character that is not a-z, 0-9 or
  whitespace, and trimming the ends (whitespace runs inside stay as they are), and the
  candidate is an echo exactly when one normalized text contains the other or more than
  6/10 of the candidate's pieces (split at whitespace runs) are pieces of the spoken
  text. A rejection as echo empties \<open>recentTtsText\<close>, changes nothing else and has no
  effect on the device; after it no text is an echo. With "the weather today is sunny"
  spoken, "weather today is sunny" is an echo and "what time is it" is not.
\<close>

theorem echo_check:
  "(isEcho tts t \<longleftrightarrow>
       tts \<noteq> [] \<and>
       (sublist (norm_str t) (norm_str tts) \<or> sublist (norm_str tts) (norm_str t) \<or>
        6 * length (split_ws (norm_str t))
          < 10 * length (filter (\<lambda>w. w \<in> set (split_ws (norm_str tts))) (split_ws (norm_str t)))))
   \<and> norm_str t = trim (filter (\<lambda>c. ascii_lower c \<or> ascii_digit c \<or> js_space c) (toLowerCase t))
   \<and> trimmed (norm_str t)
   \<and> (isFinal data \<and> trim (dataText data) \<noteq> [] \<and> \<not> rx_test stopPattern (trim (dataText data))
        \<and> speakingUntil st \<le> nowSuppress clk \<and> isEcho (recentTtsText st) (trim (dataText data)) \<longrightarrow>
      verdict (onTranscription rt au clk data st) = SuppressedEcho
      \<and> effects (onTranscription rt au clk data st) = []
      \<and> state (onTranscription rt au clk data st) = st\<lparr>recentTtsText := []\<rparr>
      \<and> \<not> isEcho (recentTtsText (state (onTranscription rt au clk data st))) t)
   \<and> isEcho ''the weather today is sunny'' ''weather today is sunny''
   \<and> \<not> isEcho ''the weather today is sunny'' ''what time is it''"
proof -
  have a: "isFinal data \<and> trim (dataText data) \<noteq> [] \<and> \<not> rx_test stopPattern (trim (dataText data))
        \<and> speakingUntil st \<le> nowSuppress clk \<and> isEcho (recentTtsText st) (trim (dataText data)) \<longrightarrow>
      verdict (onTranscription rt au clk data st) = SuppressedEcho
      \<and> effects (onTranscription rt au clk data st) = []
      \<and> state (onTranscription rt au clk data st) = st\<lparr>recentTtsText := []\<rparr>
      \<and> \<not> isEcho (recentTtsText (state (onTranscription rt au clk data st))) t"
  proof
    assume h: "isFinal data \<and> trim (dataText data) \<noteq> []
        \<and> \<not> rx_test stopPattern (trim (dataText data))
        \<and> speakingUntil st \<le> nowSuppress clk \<and> isEcho (recentTtsText st) (trim (dataText data))"
    then have r: "onTranscription rt au clk data st =
        \<lparr>verdict = SuppressedEcho, effects = [], state = st\<lparr>recentTtsText := []\<rparr>\<rparr>"
      by (simp add: onTranscription_def Let_def)
    have "\<not> isEcho [] t" by (simp add: isEcho_def)
    then show "verdict (onTranscription rt au clk data st) = SuppressedEcho
      \<and> effects (onTranscription rt au clk data st) = []
      \<and> state (onTranscription rt au clk data st) = st\<lparr>recentTtsText := []\<rparr>
      \<and> \<not> isEcho (recentTtsText (state (onTranscription rt au clk data st))) t"
      unfolding r by simp
  qed
  have b: "isEcho ''the weather today is sunny'' ''weather today is sunny''"
    by code_simp
  have c: "\<not> isEcho ''the weather today is sunny'' ''what time is it''"
    by code_simp
  have d: "norm_str t = trim (filter (\<lambda>c. ascii_lower c \<or> ascii_digit c \<or> js_space c) (toLowerCase t))"
    by (simp add: norm_str_def)
  have n: "trimmed (norm_str t)"
    using norm_shape [of t] by (rule conjunct1)
  from isEcho_iff [of tts t] d n a b c show ?thesis
    by (intro conjI)
qed

theorem echo_check_witness:
  "isEcho ''Four'' ''four''
   \<and> verdict (onTranscription calmRuntime calmAudio (clockAt 20000) (heard ''four'') busyState)
       = SuppressedEcho
   \<and> state (onTranscription calmRuntime calmAudio (clockAt 20000) (heard ''four'') busyState)
       = busyState\<lparr>recentTtsText := []\<rparr>
   \<and> \<not> isEcho (recentTtsText (state (onTranscription calmRuntime calmAudio (clockAt 20000)
         (heard ''four'') busyState))) ''what time is it''"
proof -
  have e: "isEcho ''Four'' ''four''"
    by code_simp
  have h: "isFinal (heard ''four'') \<and> trim (dataText (heard ''four'')) \<noteq> []
      \<and> \<not> rx_test stopPattern (trim (dataText (heard ''four'')))
      \<and> speakingUntil busyState \<le> nowSuppress (clockAt 20000)
      \<and> isEcho (recentTtsText busyState) (trim (dataText (heard ''four'')))"
    by code_simp
  from h echo_check [of "''Four''" "''what time is it''" "heard ''four''" busyState "clockAt 20000"
      calmRuntime calmAudio]
  have "verdict (onTranscription calmRuntime calmAudio (clockAt 20000) (heard ''four'') busyState)
       = SuppressedEcho
   \<and> effects (onTranscription calmRuntime calmAudio (clockAt 20000) (heard ''four'') busyState) = []
   \<and> state (onTranscription calmRuntime calmAudio (clockAt 20000) (heard ''four'') busyState)
       = busyState\<lparr>recentTtsText := []\<rparr>
   \<and> \<not> isEcho (recentTtsText (state (onTranscription calmRuntime calmAudio (clockAt 20000)
         (heard ''four'') busyState))) ''what time is it''"
    by blast
  with e show ?thesis by blast
qed

text \<open>
  The claim as worded fails twice. Collapsing whitespace would make "okay yes" a part of
  "okay yesterday" (spoken as "Okay - yesterday."), while the code keeps the two spaces
  that the deleted hyphen leaves and finds no echo. And the empty text is contained in
  every text, yet with nothing spoken the code rejects nothing.
\<close>

theorem echo_check_counterexample:
  "claimedEcho ''Okay - yesterday.'' ''Okay, yes'' \<and> \<not> isEcho ''Okay - yesterday.'' ''Okay, yes''
   \<and> claimedEcho [] ''hello'' \<and> \<not> isEcho [] ''hello''"
  by code_simp

text \<open>
  C4, as amended. For a text that matches the wake pattern, the command is the text with
  its leftmost match deleted (what stands before the match stays), then without leading
  commas, periods and whitespace, then trimmed; if nothing is left, it is the greeting
  "Hey". When the text has no whitespace at its ends and the match starts the text, this
  is the text without the matched prefix and the punctuation and space after it. An
  accepted text that does not match the wake pattern is the command as it is (trimmed,
  as every text the gate looks at).
\<close>

theorem command_extraction:
  "(rx_exec wakePattern raw = Some (i, j) \<longrightarrow>
      stripWakeWord raw =
        (let t = trim (dropWhile separator (take i raw @ drop j raw))
         in if t = [] then greeting else t))
   \<and> (trim raw = raw \<and> rx_exec wakePattern raw = Some (0, j) \<longrightarrow>
      stripWakeWord raw =
        (let t = dropWhile separator (drop j raw) in if t = [] then greeting else t)
      \<and> stripWakeWord raw = claimedCommand raw)
   \<and> (verdict (onTranscription rt au clk data st) = Accepted cmd \<longrightarrow>
      cmd = (if rx_test wakePattern (trim (dataText data))
             then stripWakeWord (trim (dataText data)) else trim (dataText data)))"
proof -
  have a: "rx_exec wakePattern raw = Some (i, j) \<longrightarrow>
      stripWakeWord raw =
        (let t = trim (dropWhile separator (take i raw @ drop j raw))
         in if t = [] then greeting else t)"
    using stripWakeWord_match by blast
  have b: "trim raw = raw \<and> rx_exec wakePattern raw = Some (0, j) \<longrightarrow>
      stripWakeWord raw =
        (let t = dropWhile separator (drop j raw) in if t = [] then greeting else t)
      \<and> stripWakeWord raw = claimedCommand raw"
  proof
    assume h: "trim raw = raw \<and> rx_exec wakePattern raw = Some (0, j)"
    then have t: "trimmed raw" by (simp add: trim_eq_self_iff)
    have "stripWakeWord raw =
        (let t = trim (dropWhile separator (drop j raw)) in if t = [] then greeting else t)"
      using h stripWakeWord_match [of raw 0 j] by simp
    then have 1: "stripWakeWord raw =
        (let t = dropWhile separator (drop j raw) in if t = [] then greeting else t)"
      by (simp only: trim_after_separators [OF t])
    have 2: "claimedCommand raw =
        (let t = dropWhile separator (drop j raw) in if t = [] then greeting else t)"
      using h by (simp add: claimedCommand_def)
    from 1 2 show "stripWakeWord raw =
        (let t = dropWhile separator (drop j raw) in if t = [] then greeting else t)
      \<and> stripWakeWord raw = claimedCommand raw"
      by simp
  qed
  have c: "verdict (onTranscription rt au clk data st) = Accepted cmd \<longrightarrow>
      cmd = (if rx_test wakePattern (trim (dataText data))
             then stripWakeWord (trim (dataText data)) else trim (dataText data))"
    by (auto simp: onTranscription_def Let_def split: if_splits)
  from a b c show ?thesis by (intro conjI)
qed

theorem command_extraction_witness:
  "rx_exec wakePattern ''Um, hey Mentra, what time is it'' = Some (2, 14)
   \<and> stripWakeWord ''Um, hey Mentra, what time is it'' = ''Um, what time is it''
   \<and> trim ''Hey Mentra, what time is it'' = ''Hey Mentra, what time is it''
   \<and> rx_exec wakePattern ''Hey Mentra, what time is it'' = Some (0, 10)
   \<and> stripWakeWord ''Hey Mentra, what time is it'' = ''what time is it''
   \<and> verdict (onTranscription calmRuntime calmAudio (clockAt 20000) (heard ''what about three'') busyState)
       = Accepted ''what about three''
   \<and> ''what about three'' =
      (if rx_test wakePattern (trim (dataText (heard ''what about three'')))
       then stripWakeWord (trim (dataText (heard ''what about three'')))
       else trim (dataText (heard ''what about three'')))"
proof -
  have m: "rx_exec wakePattern ''Um, hey Mentra, what time is it'' = Some (2, 14)"
    by code_simp
  have r: "(let t = trim (dropWhile separator
        (take 2 ''Um, hey Mentra, what time is it'' @ drop 14 ''Um, hey Mentra, what time is it''))
      in if t = [] then greeting else t) = ''Um, what time is it''"
    by code_simp
  have "stripWakeWord ''Um, hey Mentra, what time is it'' =
      (let t = trim (dropWhile separator
        (take 2 ''Um, hey Mentra, what time is it'' @ drop 14 ''Um, hey Mentra, what time is it''))
      in if t = [] then greeting else t)"
    using m command_extraction [of "''Um, hey Mentra, what time is it''" 2 14] by blast
  then have 1: "stripWakeWord ''Um, hey Mentra, what time is it'' = ''Um, what time is it''"
    by (simp only: r)
  have t: "trim ''Hey Mentra, what time is it'' = ''Hey Mentra, what time is it''"
    by code_simp
  have p: "rx_exec wakePattern ''Hey Mentra, what time is it'' = Some (0, 10)"
    by code_simp
  have q: "(let t = dropWhile separator (drop 10 ''Hey Mentra, what time is it'')
      in if t = [] then greeting else t) = ''what time is it''"
    by code_simp
  have "stripWakeWord ''Hey Mentra, what time is it'' =
      (let t = dropWhile separator (drop 10 ''Hey Mentra, what time is it'')
       in if t = [] then greeting else t)"
    using t p command_extraction [of "''Hey Mentra, what time is it''" 0 10] by blast
  then have 2: "stripWakeWord ''Hey Mentra, what time is it'' = ''what time is it''"
    by (simp only: q)
  have v: "verdict (onTranscription calmRuntime calmAudio (clockAt 20000) (heard ''what about three'') busyState)
       = Accepted ''what about three''"
    by code_simp
  have 3: "''what about three'' =
      (if rx_test wakePattern (trim (dataText (heard ''what about three'')))
       then stripWakeWord (trim (dataText (heard ''what about three'')))
       else trim (dataText (heard ''what about three'')))"
    using v command_extraction [of _ _ _ calmRuntime calmAudio "clockAt 20000"
        "heard ''what about three''" busyState "''what about three''"]
    by blast
  from m 1 t p 2 v 3 show ?thesis by (intro conjI)
qed

text \<open>
  The claim as worded fails when the match is not at the start: of "Um, hey Mentra, what
  time is it" the code keeps "Um" and the comma that followed the match.
\<close>

theorem command_extraction_counterexample:
  "rx_test wakePattern ''Um, hey Mentra, what time is it''
   \<and> stripWakeWord ''Um, hey Mentra, what time is it'' = ''Um, what time is it''
   \<and> claimedCommand ''Um, hey Mentra, what time is it'' = ''Umwhat time is it''"
  by code_simp

text \<open>
  C6, as amended. For the reply \<open>r\<close> to an accepted utterance, the handler sets
  \<open>recentTtsText\<close> to \<open>r\<close> and \<open>speakingUntil\<close> to the clock plus the estimate of \<open>r\<close>
  before it speaks \<open>r\<close> (they are set also when that speak fails), and after the speak has
  succeeded, at time \<open>T\<close>, it sets \<open>listenWindowUntil\<close> to \<open>T + 30000\<close> (a failed speak leaves
  it). With \<open>listenWindowUntil = T + 30000\<close>, a final utterance without wake word that
  arrives at \<open>T + 29000\<close> is accepted with its text as command, provided it is not blank,
  not a stop command, not earlier than \<open>speakingUntil\<close> and not an echo of the spoken text; an
  utterance without wake word that arrives at \<open>T + 31000\<close> is never accepted, and nothing is
  spoken or dispatched for it. Nothing is said here about the reply to a photo.
\<close>

theorem reply_state:
  "(verdict (onTranscription rt au clk data st) = Accepted cmd
      \<and> snd (processInboundMessage rt cmd None) = Inr (Some r) \<longrightarrow>
        recentTtsText (state (onTranscription rt au clk data st)) = r
        \<and> speakingUntil (state (onTranscription rt au clk data st))
            = nowBeforeSpeak clk + estimateTtsDurationMs r
        \<and> Speak r 2 True \<in> set (effects (onTranscription rt au clk data st))
        \<and> (speakReply au = Inr () \<longrightarrow>
             listenWindowUntil (state (onTranscription rt au clk data st)) = nowAfterSpeak clk + 30000)
        \<and> ((\<exists>e. speakReply au = Inl e) \<longrightarrow>
             listenWindowUntil (state (onTranscription rt au clk data st)) = listenWindowUntil st))
   \<and> (isFinal d' \<and> trim (dataText d') \<noteq> [] \<and> \<not> rx_test stopPattern (trim (dataText d'))
        \<and> \<not> rx_test wakePattern (trim (dataText d'))
        \<and> listenWindowUntil s' = T + 30000 \<and> speakingUntil s' \<le> T + 29000
        \<and> \<not> isEcho (recentTtsText s') (trim (dataText d')) \<longrightarrow>
        verdict (onTranscription rt' au' (clockAt (T + 29000)) d' s') = Accepted (trim (dataText d')))
   \<and> (\<not> rx_test wakePattern (trim (dataText d')) \<and> listenWindowUntil s' = T + 30000 \<longrightarrow>
        (\<forall>c. verdict (onTranscription rt' au' (clockAt (T + 31000)) d' s') \<noteq> Accepted c)
        \<and> (effects (onTranscription rt' au' (clockAt (T + 31000)) d' s') = []
            \<or> effects (onTranscription rt' au' (clockAt (T + 31000)) d' s') = [StopAudio]))"
proof -
  have a: "verdict (onTranscription rt au clk data st) = Accepted cmd
      \<and> snd (processInboundMessage rt cmd None) = Inr (Some r) \<longrightarrow>
        recentTtsText (state (onTranscription rt au clk data st)) = r
        \<and> speakingUntil (state (onTranscription rt au clk data st))
            = nowBeforeSpeak clk + estimateTtsDurationMs r
        \<and> Speak r 2 True \<in> set (effects (onTranscription rt au clk data st))
        \<and> (speakReply au = Inr () \<longrightarrow>
             listenWindowUntil (state (onTranscription rt au clk data st)) = nowAfterSpeak clk + 30000)
        \<and> ((\<exists>e. speakReply au = Inl e) \<longrightarrow>
             listenWindowUntil (state (onTranscription rt au clk data st)) = listenWindowUntil st)"
  proof
    assume h: "verdict (onTranscription rt au clk data st) = Accepted cmd
      \<and> snd (processInboundMessage rt cmd None) = Inr (Some r)"
    then have sh: "effects (onTranscription rt au clk data st) = fst (respond rt au clk cmd st)"
      "state (onTranscription rt au clk data st) = snd (respond rt au clk cmd st)"
      using accepted_shape [of rt au clk data st cmd] by simp_all
    from h have "snd (processInboundMessage rt cmd None) = Inr (Some r)" ..
    then show "recentTtsText (state (onTranscription rt au clk data st)) = r
        \<and> speakingUntil (state (onTranscription rt au clk data st))
            = nowBeforeSpeak clk + estimateTtsDurationMs r
        \<and> Speak r 2 True \<in> set (effects (onTranscription rt au clk data st))
        \<and> (speakReply au = Inr () \<longrightarrow>
             listenWindowUntil (state (onTranscription rt au clk data st)) = nowAfterSpeak clk + 30000)
        \<and> ((\<exists>e. speakReply au = Inl e) \<longrightarrow>
             listenWindowUntil (state (onTranscription rt au clk data st)) = listenWindowUntil st)"
      unfolding sh by (rule respond_reply)
  qed
  have b: "isFinal d' \<and> trim (dataText d') \<noteq> [] \<and> \<not> rx_test stopPattern (trim (dataText d'))
        \<and> \<not> rx_test wakePattern (trim (dataText d'))
        \<and> listenWindowUntil s' = T + 30000 \<and> speakingUntil s' \<le> T + 29000
        \<and> \<not> isEcho (recentTtsText s') (trim (dataText d')) \<longrightarrow>
        verdict (onTranscription rt' au' (clockAt (T + 29000)) d' s') = Accepted (trim (dataText d'))"
    by (simp add: onTranscription_def Let_def clockAt_def)
  have c: "\<not> rx_test wakePattern (trim (dataText d')) \<and> listenWindowUntil s' = T + 30000 \<longrightarrow>
        (\<forall>c. verdict (onTranscription rt' au' (clockAt (T + 31000)) d' s') \<noteq> Accepted c)
        \<and> (effects (onTranscription rt' au' (clockAt (T + 31000)) d' s') = []
            \<or> effects (onTranscription rt' au' (clockAt (T + 31000)) d' s') = [StopAudio])"
    by (simp add: onTranscription_def Let_def clockAt_def)
  from a b c show ?thesis by (intro conjI)
qed

theorem reply_state_witness:
  "state (onTranscription calmRuntime calmAudio (clockAt 1000)
        (heard ''Hey Mentra what is two plus two'') initial_state) =
     \<lparr>listenWindowUntil = 31000, speakingUntil = 3000, recentTtsText = ''Four''\<rparr>
   \<and> verdict (onTranscription calmRuntime calmAudio (clockAt (1000 + 29000))
        (heard ''what about three plus three'')
        \<lparr>listenWindowUntil = 31000, speakingUntil = 3000, recentTtsText = ''Four''\<rparr>)
       = Accepted ''what about three plus three''
   \<and> (\<forall>c. verdict (onTranscription calmRuntime calmAudio (clockAt (1000 + 31000))
        (heard ''what about three plus three'')
        \<lparr>listenWindowUntil = 31000, speakingUntil = 3000, recentTtsText = ''Four''\<rparr>)
       \<noteq> Accepted c)"
proof -
  let ?h = "onTranscription calmRuntime calmAudio (clockAt 1000)
        (heard ''Hey Mentra what is two plus two'') initial_state"
  let ?s = "\<lparr>listenWindowUntil = 31000, speakingUntil = 3000, recentTtsText = ''Four''\<rparr>"
  have v: "verdict ?h = Accepted ''what is two plus two''"
    by code_simp
  have p: "snd (processInboundMessage calmRuntime ''what is two plus two'' None) = Inr (Some ''Four'')"
    by code_simp
  have s: "speakReply calmAudio = Inr ()"
    by (simp add: calmAudio_def)
  have e: "nowBeforeSpeak (clockAt 1000) + estimateTtsDurationMs ''Four'' = 3000"
    by code_simp
  have n: "nowAfterSpeak (clockAt 1000) + 30000 = 31000"
    by (simp add: clockAt_def)
  have "recentTtsText (state ?h) = ''Four''
      \<and> speakingUntil (state ?h) = nowBeforeSpeak (clockAt 1000) + estimateTtsDurationMs ''Four''
      \<and> listenWindowUntil (state ?h) = nowAfterSpeak (clockAt 1000) + 30000"
    using v p s reply_state [of calmRuntime calmAudio "clockAt 1000"
        "heard ''Hey Mentra what is two plus two''" initial_state "''what is two plus two''" "''Four''"]
    by blast
  then have 1: "state ?h = ?s"
    unfolding e n by (cases "state ?h") simp
  have f: "isFinal (heard ''what about three plus three'')
      \<and> trim (dataText (heard ''what about three plus three'')) \<noteq> []
      \<and> \<not> rx_test stopPattern (trim (dataText (heard ''what about three plus three'')))
      \<and> \<not> rx_test wakePattern (trim (dataText (heard ''what about three plus three'')))
      \<and> listenWindowUntil ?s = 1000 + 30000 \<and> speakingUntil ?s \<le> 1000 + 29000
      \<and> \<not> isEcho (recentTtsText ?s) (trim (dataText (heard ''what about three plus three'')))"
    by code_simp
  have t: "trim (dataText (heard ''what about three plus three'')) = ''what about three plus three''"
    by code_simp
  have 2: "verdict (onTranscription calmRuntime calmAudio (clockAt (1000 + 29000))
        (heard ''what about three plus three'') ?s) = Accepted (trim (dataText (heard ''what about three plus three'')))"
    using f reply_state [of _ _ _ _ _ _ _ "heard ''what about three plus three''" ?s 1000
        calmRuntime calmAudio]
    by blast
  have 3: "\<forall>c. verdict (onTranscription calmRuntime calmAudio (clockAt (1000 + 31000))
        (heard ''what about three plus three'') ?s) \<noteq> Accepted c"
    using f reply_state [of _ _ _ _ _ _ _ "heard ''what about three plus three''" ?s 1000
        calmRuntime calmAudio]
    by blast
  from 1 2 3 show ?thesis
    unfolding t by (intro conjI)
qed

text \<open>
  The claim as worded fails for the reply to a photo, which is spoken without any change
  of the listen state, and for a follow-up that repeats the reply: "four", heard 29000
  after "Four" was spoken, is rejected as an echo.
\<close>

theorem reply_state_counterexample:
  "fst (onPhotoTaken calmRuntime calmAudio snapshot initial_state) =
     [Call (SaveMediaBuffer ''image/jpeg''), Call ResolveAgentRoute, Call ResolveStorePath,
      Call ResolveEnvelopeFormatOptions, Call (FormatInboundEnvelope ''[Photo from smart glasses]''),
      Call (FinalizeInboundContext ''[Photo from smart glasses]'' (Some ''/media/photo.jpg'')),
      Call RecordInboundSession, Call RecordSessionMetaFromInbound, Call ActivityRecord,
      Call ResolveEffectiveMessagesConfig, Call ResolveHumanDelayConfig, Call DispatchReply,
      Speak ''Four'' 2 True]
   \<and> snd (onPhotoTaken calmRuntime calmAudio snapshot initial_state) =
     \<lparr>listenWindowUntil = 0, speakingUntil = 0, recentTtsText = []\<rparr>
   \<and> state (onTranscription calmRuntime calmAudio (clockAt 1000)
        (heard ''Hey Mentra what is two plus two'') initial_state) =
     \<lparr>listenWindowUntil = 31000, speakingUntil = 3000, recentTtsText = ''Four''\<rparr>
   \<and> verdict (onTranscription calmRuntime calmAudio (clockAt 30000) (heard ''four'')
        \<lparr>listenWindowUntil = 31000, speakingUntil = 3000, recentTtsText = ''Four''\<rparr>) =
     SuppressedEcho"
  by code_simp

end
